theory Spec2Isabelle
  imports Complex_Main "HOL-Library.Sublist"
begin

section \<open>Values of the program\<close>

text \<open>
  The program is \<^verbatim>\<open>gps.py\<close>. Its timestamps are Python floats. A float is one of the
  three special values or a finite value, which is a real number (every finite float is
  one; the model does not say which reals are floats, so what is proved of all of them
  holds of the floats).
\<close>

datatype pyfloat = Fin real | PInf | NInf | NaN

text \<open>
  Subtraction \<^verbatim>\<open>a - b\<close>. The difference of two finite floats is not the exact difference:
  the machine returns the float nearest to it, or an infinity when that overflows. This
  rounding is the parameter \<open>rnd\<close>, from the exact result to the float returned; the
  special values follow the rules of the arithmetic.
\<close>

fun py_sub :: "(real \<Rightarrow> pyfloat) \<Rightarrow> pyfloat \<Rightarrow> pyfloat \<Rightarrow> pyfloat" where
  "py_sub rnd NaN _ = NaN"
| "py_sub rnd _ NaN = NaN"
| "py_sub rnd (Fin a) (Fin b) = rnd (a - b)"
| "py_sub rnd (Fin a) PInf = NInf"
| "py_sub rnd (Fin a) NInf = PInf"
| "py_sub rnd PInf PInf = NaN"
| "py_sub rnd PInf _ = PInf"
| "py_sub rnd NInf NInf = NaN"
| "py_sub rnd NInf _ = NInf"

text \<open>\<^verbatim>\<open>abs\<close> and the comparison \<^verbatim>\<open><\<close> of floats, which are exact.\<close>

fun py_abs :: "pyfloat \<Rightarrow> pyfloat" where
  "py_abs (Fin a) = Fin \<bar>a\<bar>"
| "py_abs PInf = PInf"
| "py_abs NInf = PInf"
| "py_abs NaN = NaN"

fun py_lt :: "pyfloat \<Rightarrow> pyfloat \<Rightarrow> bool" where
  "py_lt NaN _ = False"
| "py_lt _ NaN = False"
| "py_lt (Fin a) (Fin b) = (a < b)"
| "py_lt (Fin a) PInf = True"
| "py_lt (Fin a) NInf = False"
| "py_lt PInf _ = False"
| "py_lt NInf NInf = False"
| "py_lt NInf _ = True"

definition py_gt :: "pyfloat \<Rightarrow> pyfloat \<Rightarrow> bool" where
  "py_gt a b = py_lt b a"

fun py_neg :: "pyfloat \<Rightarrow> pyfloat" where
  "py_neg (Fin a) = Fin (- a)"
| "py_neg PInf = NInf"
| "py_neg NInf = PInf"
| "py_neg NaN = NaN"

text \<open>
  Three properties of rounding to the nearest float: the result is never NaN, the
  rounding of \<open>- x\<close> is the negation of the rounding of \<open>x\<close>, and a greater real never
  gets a smaller float. They are assumed only where a statement compares exact
  differences.
\<close>

definition correctly_rounded :: "(real \<Rightarrow> pyfloat) \<Rightarrow> bool" where
  "correctly_rounded rnd =
     ((\<forall>x. rnd x \<noteq> NaN) \<and> (\<forall>x. rnd (- x) = py_neg (rnd x)) \<and>
      (\<forall>x y. x \<le> y \<longrightarrow> \<not> py_lt (rnd y) (rnd x)))"

text \<open>Equality \<^verbatim>\<open>==\<close> of two float objects: a NaN is equal to nothing.\<close>

definition py_float_eq :: "pyfloat \<Rightarrow> pyfloat \<Rightarrow> bool" where
  "py_float_eq a b = (a \<noteq> NaN \<and> a = b)"

text \<open>Truth value of a float in a condition: only zero is false.\<close>

definition float_truthy :: "pyfloat \<Rightarrow> bool" where
  "float_truthy a = (a \<noteq> Fin 0)"

text \<open>
  Latitude, longitude and altitude are untyped in the source: strings when they come from
  a CSV row, strings or JSON numbers when they come from the metadata tool (a JSON number
  is finite). The truth value of a string is that it is not empty, of a number that it is
  not zero.
\<close>

datatype pyval = Str string | Num real

fun truthy :: "pyval \<Rightarrow> bool" where
  "truthy (Str s) = (s \<noteq> [])"
| "truthy (Num x) = (x \<noteq> 0)"

text \<open>A row of \<^verbatim>\<open>GPS_TABLE\<close>: \<^verbatim>\<open>(timestamp, latitude, longitude, altitude)\<close>.\<close>

type_synonym gps_row = "pyfloat \<times> pyval \<times> pyval \<times> pyval"

section \<open>The world outside the file\<close>

text \<open>
  Exceptions are values. Every call that leaves \<^verbatim>\<open>gps.py\<close> is a field of the environment:
  the metadata tool (\<^verbatim>\<open>exiftool\<close>; starting the helper process is part of each call), the
  reverse geocoder, the \<^verbatim>\<open>datetime\<close> conversions, the builtin \<^verbatim>\<open>float\<close>, the CSV reader
  and writer and the file system. A call answers with its value or with the exception it
  raises. \<open>round_float\<close> is the rounding of the machine's float arithmetic. The CSV
  reader is iterated row by row: \<open>csv_reader\<close> answers with the exception of \<^verbatim>\<open>open\<close>, or
  with the rows it yields and, when the iteration itself raises after them, that
  exception.
\<close>

datatype exn = ValueError | IndexError | TypeError | OverflowError | OSError | ExifToolError

record geo =
  cc :: string
  name :: string
  admin1 :: string

type_synonym meta = "string \<rightharpoonup> pyval"

type_synonym tags = "(string \<times> pyval) list"

record env =
  round_float :: "real \<Rightarrow> pyfloat"
  get_metadata :: "string \<Rightarrow> exn + meta list"
  strptime_timestamp :: "pyval \<Rightarrow> exn + real"
  fromtimestamp :: "pyfloat \<Rightarrow> exn + string"
  rg_search :: "pyval \<Rightarrow> pyval \<Rightarrow> exn + geo list"
  float_of :: "pyval \<Rightarrow> exn + pyfloat"
  set_tags :: "string \<Rightarrow> tags \<Rightarrow> string list \<Rightarrow> exn option"
  csv_reader :: "string \<Rightarrow> exn + string list list \<times> exn option"
  open_append :: "string \<Rightarrow> exn option"
  writerow :: "gps_row \<Rightarrow> exn option"
  isfile :: "string \<Rightarrow> bool"
  isdir :: "string \<Rightarrow> bool"
  walk :: "string \<Rightarrow> string list"

text \<open>
  What a run does to the outside is the list of its events, in order: the lines it
  prints (each kind of line with the values it shows) and the calls it makes.
\<close>

datatype message =
    LoadError exn
  | WriteRowError exn
  | ReadOk string pyfloat pyval pyval
  | ReadFailed string exn
  | TimeDiffError string pyfloat string
  | Matched string string pyval pyval
  | Address string string
  | Done string
  | Unsupported string

datatype event =
    Print message
  | GetMetadata string
  | Search pyval pyval
  | SetTags string tags "string list"
  | WriteRow string gps_row
  | TaskDone
  | Uncaught exn

text \<open>The module's globals that functions read or assign; the queue is passed beside them.\<close>

record globals =
  GPS_TABLE :: "gps_row list"
  OVERWRITE :: bool

definition EXT :: "string list" where
  "EXT = [''.jpg'', ''.jpeg'', ''.png'', ''.tif'', ''.tiff'', ''.raw'', ''.cr2'', ''.arw'',
          ''.hif'', ''.dng'', ''.nef'']"

section \<open>Loading and saving the table\<close>

text \<open>
  \<^verbatim>\<open>set(GPS_TABLE)\<close>: rows are compared as Python compares tuples of fresh objects, so a
  row whose timestamp is NaN is equal to no row. Python leaves the iteration order of a
  set open; the model keeps the order of first occurrence, and no theorem below depends
  on the order.
\<close>

fun row_eq :: "gps_row \<Rightarrow> gps_row \<Rightarrow> bool" where
  "row_eq (t, lat, lon, alt) (t', lat', lon', alt') =
     (py_float_eq t t' \<and> lat = lat' \<and> lon = lon' \<and> alt = alt')"

definition set_insert :: "gps_row list \<Rightarrow> gps_row \<Rightarrow> gps_row list" where
  "set_insert acc r = (if list_ex (\<lambda>r'. row_eq r' r) acc then acc else acc @ [r])"

definition py_set :: "gps_row list \<Rightarrow> gps_row list" where
  "py_set rows = foldl set_insert [] rows"

text \<open>
  One pass of the loop body of \<^verbatim>\<open>load_gps_csv\<close>:
  \<^verbatim>\<open>(float(row[0]), row[1], row[2], row[3])\<close>, evaluated left to right.
\<close>

definition load_row :: "env \<Rightarrow> string list \<Rightarrow> exn + gps_row" where
  "load_row env row =
     (case row of
        [] \<Rightarrow> Inl IndexError
      | r0 # rest \<Rightarrow>
          (case float_of env (Str r0) of
             Inl e \<Rightarrow> Inl e
           | Inr t \<Rightarrow>
               (case rest of
                  r1 # r2 # r3 # _ \<Rightarrow> Inr (t, Str r1, Str r2, Str r3)
                | _ \<Rightarrow> Inl IndexError)))"

fun load_rows :: "env \<Rightarrow> gps_row list \<Rightarrow> string list list \<Rightarrow> gps_row list \<times> event list" where
  "load_rows env table [] = (table, [])"
| "load_rows env table (row # rows) =
     (case load_row env row of
        Inl e \<Rightarrow> (case load_rows env table rows of (t, ev) \<Rightarrow> (t, Print (LoadError e) # ev))
      | Inr r \<Rightarrow> load_rows env (table @ [r]) rows)"

text \<open>
  \<^verbatim>\<open>load_gps_csv\<close>. An exception of \<^verbatim>\<open>open\<close> leaves the function before anything is
  done. An exception of the reader in the middle of the loop is outside the \<^verbatim>\<open>try\<close>: it
  leaves the function after the rows before it were appended and their errors printed,
  and before \<^verbatim>\<open>GPS_TABLE = set(GPS_TABLE)\<close>. The result is the exception that left the
  function, if any, and the globals.
\<close>

definition load_gps_csv :: "env \<Rightarrow> globals \<Rightarrow> string \<Rightarrow> (exn option \<times> globals) \<times> event list" where
  "load_gps_csv env g gps_csv_path =
     (case csv_reader env gps_csv_path of
        Inl e \<Rightarrow> ((Some e, g), [])
      | Inr (rows, raised) \<Rightarrow>
          (case load_rows env (GPS_TABLE g) rows of
             (table, ev) \<Rightarrow>
               (case raised of
                  Some e \<Rightarrow> ((Some e, g\<lparr>GPS_TABLE := table\<rparr>), ev)
                | None \<Rightarrow> ((None, g\<lparr>GPS_TABLE := py_set table\<rparr>), ev))))"

fun write_rows :: "env \<Rightarrow> string \<Rightarrow> gps_row list \<Rightarrow> event list" where
  "write_rows env gps_csv_path [] = []"
| "write_rows env gps_csv_path (row # rows) =
     (case writerow env row of
        Some e \<Rightarrow> Print (WriteRowError e)
      | None \<Rightarrow> WriteRow gps_csv_path row) # write_rows env gps_csv_path rows"

definition write_gps_csv :: "env \<Rightarrow> globals \<Rightarrow> string \<Rightarrow> (exn option \<times> globals) \<times> event list" where
  "write_gps_csv env g gps_csv_path =
     (let g' = g\<lparr>GPS_TABLE := py_set (GPS_TABLE g)\<rparr>
      in case open_append env gps_csv_path of
           Some e \<Rightarrow> ((Some e, g'), [])
         | None \<Rightarrow> ((None, g'), write_rows env gps_csv_path (GPS_TABLE g')))"

section \<open>Nearest row\<close>

text \<open>
  \<^verbatim>\<open>get_closest_gps_row\<close>: the loop over \<^verbatim>\<open>GPS_TABLE\<close> with its two local variables; the
  empty tuple \<^verbatim>\<open>()\<close> is \<open>None\<close>. The table is the list of its rows in iteration order.
  The function reads the global table; it returns the globals beside its result, so that
  what it leaves of them can be stated.
\<close>

fun closest_loop :: "env \<Rightarrow> pyfloat \<Rightarrow> gps_row list \<Rightarrow> pyfloat \<times> gps_row option \<Rightarrow> pyfloat \<times> gps_row option" where
  "closest_loop env timestamp [] (min_diff, closest_gps_row) = (min_diff, closest_gps_row)"
| "closest_loop env timestamp (gps_row # rest) (min_diff, closest_gps_row) =
     (let time_diff = py_abs (py_sub (round_float env) timestamp (fst gps_row))
      in if py_lt time_diff min_diff
         then closest_loop env timestamp rest (time_diff, Some gps_row)
         else closest_loop env timestamp rest (min_diff, closest_gps_row))"

definition get_closest_gps_row :: "env \<Rightarrow> globals \<Rightarrow> pyfloat \<Rightarrow> (pyfloat \<times> gps_row option) \<times> globals" where
  "get_closest_gps_row env g timestamp =
     (closest_loop env timestamp (GPS_TABLE g) (PInf, None), g)"

text \<open>The difference the loop computes for a row: \<^verbatim>\<open>abs(timestamp - gps_row[0])\<close> in floats.\<close>

definition time_diff_of :: "env \<Rightarrow> pyfloat \<Rightarrow> gps_row \<Rightarrow> pyfloat" where
  "time_diff_of env timestamp gps_row = py_abs (py_sub (round_float env) timestamp (fst gps_row))"

section \<open>Reading and writing one photo\<close>

definition meta_get :: "meta \<Rightarrow> string \<Rightarrow> pyval" where
  "meta_get m k = (case m k of None \<Rightarrow> Str [] | Some v \<Rightarrow> v)"

text \<open>
  \<^verbatim>\<open>read_photo_gps\<close>: everything is inside one \<^verbatim>\<open>try\<close>, any exception gives the empty
  tuple. A missing \<^verbatim>\<open>DateTimeOriginal\<close> is \<^verbatim>\<open>strptime(None, ...)\<close>, a TypeError.
\<close>

definition read_photo_gps :: "env \<Rightarrow> string \<Rightarrow> gps_row option \<times> event list" where
  "read_photo_gps env photo_path =
     (case get_metadata env photo_path of
        Inl e \<Rightarrow> (None, [GetMetadata photo_path, Print (ReadFailed photo_path e)])
      | Inr [] \<Rightarrow> (None, [GetMetadata photo_path, Print (ReadFailed photo_path IndexError)])
      | Inr (m # _) \<Rightarrow>
          (let lon = meta_get m ''EXIF:GPSLongitude'';
               lat = meta_get m ''EXIF:GPSLatitude'';
               alt = meta_get m ''EXIF:GPSAltitude''
           in case (case m ''EXIF:DateTimeOriginal'' of
                      None \<Rightarrow> Inl TypeError
                    | Some v \<Rightarrow> strptime_timestamp env v) of
                Inl e \<Rightarrow> (None, [GetMetadata photo_path, Print (ReadFailed photo_path e)])
              | Inr timestamp \<Rightarrow>
                  (Some (Fin timestamp, lat, lon, alt),
                   [GetMetadata photo_path, Print (ReadOk photo_path (Fin timestamp) lat lon)])))"

definition gps_to_address :: "env \<Rightarrow> pyval \<Rightarrow> pyval \<Rightarrow> (exn + string) \<times> event list" where
  "gps_to_address env lat lon =
     (case rg_search env lat lon of
        Inl e \<Rightarrow> (Inl e, [Search lat lon])
      | Inr [] \<Rightarrow> (Inl IndexError, [Search lat lon])
      | Inr (result # _) \<Rightarrow>
          (Inr (cc result @ '', '' @ name result @ '', '' @ admin1 result @ '', '' @ cc result),
           [Search lat lon]))"

text \<open>The dictionary and the parameters that \<^verbatim>\<open>write_photo_gps\<close> passes to \<^verbatim>\<open>set_tags\<close>.\<close>

definition gps_tags :: "pyval \<Rightarrow> pyval \<Rightarrow> pyval \<Rightarrow> pyfloat \<Rightarrow> pyfloat \<Rightarrow> tags" where
  "gps_tags lat lon alt flat flon =
     [(''EXIF:GPSLatitude'', lat),
      (''EXIF:GPSLongitude'', lon),
      (''EXIF:GPSAltitude'', alt),
      (''EXIF:GPSLatitudeRef'', Str (if py_gt flat (Fin 0) then ''N'' else ''S'')),
      (''EXIF:GPSLongitudeRef'', Str (if py_gt flon (Fin 0) then ''E'' else ''W''))]"

definition tool_params :: "globals \<Rightarrow> string list" where
  "tool_params g = [''-P'', if OVERWRITE g then ''-overwrite_original'' else []]"

text \<open>
  \<^verbatim>\<open>write_photo_gps\<close>. Nothing here catches an exception: one raised by
  \<^verbatim>\<open>datetime.fromtimestamp\<close>, by the geocoder, by \<^verbatim>\<open>float\<close> or by \<^verbatim>\<open>set_tags\<close> leaves the
  function (\<open>Inl\<close>), with the events up to that point.
\<close>

definition write_photo_gps :: "env \<Rightarrow> globals \<Rightarrow> string \<Rightarrow> (exn + unit) \<times> event list" where
  "write_photo_gps env g photo_path =
     (case read_photo_gps env photo_path of
        (None, ev1) \<Rightarrow> (Inr (), ev1)
      | (Some exif_row, ev1) \<Rightarrow>
          if truthy (fst (snd exif_row)) \<and> truthy (fst (snd (snd exif_row)))
          then (Inr (), ev1)
          else
            (case fst (get_closest_gps_row env g (fst exif_row)) of
               (min_diff, None) \<Rightarrow> (Inr (), ev1)
             | (min_diff, Some (timestamp, lat, lon, alt)) \<Rightarrow>
                 (case fromtimestamp env timestamp of
                    Inl e \<Rightarrow> (Inl e, ev1)
                  | Inr gps_dt \<Rightarrow>
                      (case gps_to_address env lat lon of
                         (Inl e, ev2) \<Rightarrow> (Inl e, ev1 @ ev2)
                       | (Inr address, ev2) \<Rightarrow>
                           if py_gt min_diff (Fin 3600)
                           then (Inr (),
                                 ev1 @ ev2 @ [Print (TimeDiffError photo_path min_diff gps_dt)])
                           else
                             (let ev3 = [Print (Matched photo_path gps_dt lat lon),
                                         Print (Address photo_path address)]
                              in case float_of env lat of
                                   Inl e \<Rightarrow> (Inl e, ev1 @ ev2 @ ev3)
                                 | Inr flat \<Rightarrow>
                                     (case float_of env lon of
                                        Inl e \<Rightarrow> (Inl e, ev1 @ ev2 @ ev3)
                                      | Inr flon \<Rightarrow>
                                          (let t = gps_tags lat lon alt flat flon;
                                               call = SetTags photo_path t (tool_params g)
                                           in case set_tags env photo_path t (tool_params g) of
                                                Some e \<Rightarrow> (Inl e, ev1 @ ev2 @ ev3 @ [call])
                                              | None \<Rightarrow>
                                                  (Inr (),
                                                   ev1 @ ev2 @ ev3 @
                                                   [call, Print (Done photo_path)]))))))))"

section \<open>Workers\<close>

text \<open>
  A worker takes paths from the queue until \<^verbatim>\<open>queue.Empty\<close>. \<^verbatim>\<open>task_done\<close> is in a
  \<^verbatim>\<open>finally\<close>; the only \<^verbatim>\<open>except\<close> is for \<^verbatim>\<open>queue.Empty\<close>, so any other exception ends the
  worker: the result is the exception (or \<open>None\<close> when the queue ran empty) and the
  paths left in the queue.
\<close>

fun write_worker :: "env \<Rightarrow> globals \<Rightarrow> string list \<Rightarrow> (exn option \<times> string list) \<times> event list" where
  "write_worker env g [] = ((None, []), [])"
| "write_worker env g (photo_path # queue) =
     (case write_photo_gps env g photo_path of
        (Inl e, ev) \<Rightarrow> ((Some e, queue), ev @ [TaskDone, Uncaught e])
      | (Inr _, ev) \<Rightarrow>
          (case write_worker env g queue of (r, ev') \<Rightarrow> (r, ev @ [TaskDone] @ ev')))"

text \<open>The body of the \<^verbatim>\<open>try\<close> of \<^verbatim>\<open>read_worker\<close> after the read: the test and the append.\<close>

definition read_append :: "globals \<Rightarrow> gps_row option \<Rightarrow> globals" where
  "read_append g exif_row =
     (case exif_row of
        None \<Rightarrow> g
      | Some r \<Rightarrow>
          if float_truthy (fst r) \<and> truthy (fst (snd r)) \<and> truthy (fst (snd (snd r)))
          then g\<lparr>GPS_TABLE := GPS_TABLE g @ [r]\<rparr>
          else g)"

fun read_worker :: "env \<Rightarrow> globals \<Rightarrow> string list \<Rightarrow> globals \<times> event list" where
  "read_worker env g [] = (g, [])"
| "read_worker env g (photo_path # queue) =
     (case read_photo_gps env photo_path of
        (exif_row, ev) \<Rightarrow>
          (case read_worker env (read_append g exif_row) queue of
             (g', ev') \<Rightarrow> (g', ev @ [TaskDone] @ ev')))"

section \<open>The command\<close>

text \<open>
  \<^verbatim>\<open>str.lower\<close> on the ASCII letters (other characters are left as they are), and the two
  tests of \<^verbatim>\<open>process_file\<close>: \<^verbatim>\<open>endswith(EXT)\<close> and \<^verbatim>\<open>"thumb" not in\<close>.
\<close>

definition lower_char :: "char \<Rightarrow> char" where
  "lower_char c =
     (case map_of (zip ''ABCDEFGHIJKLMNOPQRSTUVWXYZ'' ''abcdefghijklmnopqrstuvwxyz'') c of
        None \<Rightarrow> c
      | Some d \<Rightarrow> d)"

definition lower :: "string \<Rightarrow> string" where
  "lower s = map lower_char s"

definition process_file :: "string list \<Rightarrow> string \<Rightarrow> string list \<times> event list" where
  "process_file queue photo_path =
     (if list_ex (\<lambda>e. suffix e (lower photo_path)) EXT \<and> \<not> sublist ''thumb'' (lower photo_path)
      then (queue @ [photo_path], [])
      else (queue, [Print (Unsupported photo_path)]))"

fun process_files :: "string list \<Rightarrow> string list \<Rightarrow> string list \<times> event list" where
  "process_files queue [] = (queue, [])"
| "process_files queue (file_path # files) =
     (case process_file queue file_path of
        (q, ev) \<Rightarrow> (case process_files q files of (q', ev') \<Rightarrow> (q', ev @ ev')))"

text \<open>\<^verbatim>\<open>walk\<close> gives the joined paths of the files under a directory, in the order of \<^verbatim>\<open>os.walk\<close>.\<close>

definition loop_file :: "env \<Rightarrow> string list \<Rightarrow> string \<Rightarrow> string list \<times> event list" where
  "loop_file env queue photos_path =
     (if isfile env photos_path then process_file queue photos_path
      else if isdir env photos_path then process_files queue (walk env photos_path)
      else (queue, []))"

text \<open>
  The pool of threads, in the schedule where each thread runs to its end before the next
  one starts: a thread that died leaves the rest of the queue to the threads after it.
  Other interleavings are not modelled.
\<close>

fun write_workers :: "env \<Rightarrow> globals \<Rightarrow> nat \<Rightarrow> string list \<Rightarrow> string list \<times> event list" where
  "write_workers env g 0 queue = (queue, [])"
| "write_workers env g (Suc n) queue =
     (case write_worker env g queue of
        ((r, left), ev) \<Rightarrow>
          (case write_workers env g n left of (left', ev') \<Rightarrow> (left', ev @ ev')))"

fun read_workers :: "env \<Rightarrow> globals \<Rightarrow> nat \<Rightarrow> string list \<Rightarrow> (globals \<times> string list) \<times> event list" where
  "read_workers env g 0 queue = ((g, queue), [])"
| "read_workers env g (Suc n) queue =
     (case read_worker env g queue of
        (g', ev) \<Rightarrow> (case read_workers env g' n [] of (r, ev') \<Rightarrow> (r, ev @ ev')))"

text \<open>
  How \<^verbatim>\<open>main\<close> ends: it returns, it raises, or \<^verbatim>\<open>PHOTO_QUEUE.join()\<close> never returns because
  paths are left in the queue and no thread is alive.
\<close>

datatype run = Returned | Blocked | Raised exn

text \<open>
  \<^verbatim>\<open>main\<close>. Its first statement \<^verbatim>\<open>OVERWRITE = overwrite\<close> stands in a function without a
  \<^verbatim>\<open>global OVERWRITE\<close> declaration, so in Python it binds a local variable of \<^verbatim>\<open>main\<close>:
  the module's \<^verbatim>\<open>OVERWRITE\<close>, which \<^verbatim>\<open>write_photo_gps\<close> reads, is not assigned. The queue
  is empty when \<^verbatim>\<open>main\<close> starts.
\<close>

definition main :: "env \<Rightarrow> globals \<Rightarrow> string \<Rightarrow> string \<Rightarrow> bool \<Rightarrow> int \<Rightarrow> (run \<times> globals) \<times> event list" where
  "main env g arg1 arg2 overwrite threads =
     (let local_OVERWRITE = overwrite
      in if suffix ''.csv'' (lower arg1) then
           (case load_gps_csv env g arg1 of
              ((Some e, g1), ev0) \<Rightarrow> ((Raised e, g1), ev0)
            | ((None, g1), ev0) \<Rightarrow>
                (case loop_file env [] arg2 of
                   (queue, ev1) \<Rightarrow>
                     (case write_workers env g1 (nat threads) queue of
                        (left, ev2) \<Rightarrow>
                          ((if left = [] then Returned else Blocked, g1), ev0 @ ev1 @ ev2))))
         else if suffix ''.csv'' (lower arg2) then
           (case loop_file env [] arg1 of
              (queue, ev1) \<Rightarrow>
                (case read_workers env g (nat threads) queue of
                   ((g1, left), ev2) \<Rightarrow>
                     if left \<noteq> [] then ((Blocked, g1), ev1 @ ev2)
                     else
                       (case write_gps_csv env g1 arg2 of
                          ((Some e, g2), ev3) \<Rightarrow> ((Raised e, g2), ev1 @ ev2 @ ev3)
                        | ((None, g2), ev3) \<Rightarrow> ((Returned, g2), ev1 @ ev2 @ ev3))))
         else ((Returned, g), []))"

text \<open>The module's globals when the program starts.\<close>

definition initial :: globals where
  "initial = \<lparr>GPS_TABLE = [], OVERWRITE = False\<rparr>"

section \<open>Observations on a run\<close>

text \<open>
  The calls of \<^verbatim>\<open>set_tags\<close>, the calls of the geocoder and the address lines among the
  events of a run, the rows that were written to the CSV file, and the parameter lists
  of the calls of \<^verbatim>\<open>set_tags\<close>.
\<close>

fun is_set_tags :: "event \<Rightarrow> bool" where
  "is_set_tags (SetTags _ _ _) = True"
| "is_set_tags _ = False"

fun is_search :: "event \<Rightarrow> bool" where
  "is_search (Search _ _) = True"
| "is_search _ = False"

fun is_address :: "event \<Rightarrow> bool" where
  "is_address (Print (Address _ _)) = True"
| "is_address _ = False"

fun written_rows :: "event list \<Rightarrow> gps_row list" where
  "written_rows [] = []"
| "written_rows (WriteRow _ r # ev) = r # written_rows ev"
| "written_rows (_ # ev) = written_rows ev"

fun set_tags_params :: "event list \<Rightarrow> string list list" where
  "set_tags_params [] = []"
| "set_tags_params (SetTags _ _ ps # ev) = ps # set_tags_params ev"
| "set_tags_params (_ # ev) = set_tags_params ev"

text \<open>No two rows of a table are equal in Python's sense.\<close>

fun no_duplicates :: "gps_row list \<Rightarrow> bool" where
  "no_duplicates [] = True"
| "no_duplicates (r # rs) = (\<not> list_ex (row_eq r) rs \<and> no_duplicates rs)"

section \<open>An environment for the examples\<close>

text \<open>
  The examples below run the functions in a small world: photos are given with their
  tags, CSV files with their rows; the geocoder, the tag writer and the CSV writer always
  succeed; the one directory is \<^verbatim>\<open>photos\<close>, which holds all the photos.
  \<open>float_literal\<close> is Python's \<^verbatim>\<open>float\<close> on the spellings the examples
  use: a sign, digits with at most one point, and the words \<^verbatim>\<open>inf\<close> and \<^verbatim>\<open>nan\<close>; it is
  not used outside the examples. \<open>demo_clock\<close> is \<^verbatim>\<open>strptime(...).timestamp()\<close> for
  five dates in a UTC zone. The differences that the examples compute are whole numbers
  of seconds far below \<open>2 ^ 53\<close>, which float arithmetic returns exactly, so the rounding
  of the examples returns its argument.
\<close>

definition digit_of :: "char \<Rightarrow> nat option" where
  "digit_of c = map_of (zip ''0123456789'' [0, 1, 2, 3, 4, 5, 6, 7, 8, 9]) c"

fun digits_value :: "string \<Rightarrow> nat \<Rightarrow> nat option" where
  "digits_value [] acc = Some acc"
| "digits_value (c # cs) acc =
     (case digit_of c of None \<Rightarrow> None | Some d \<Rightarrow> digits_value cs (10 * acc + d))"

definition unsigned_literal :: "string \<Rightarrow> pyfloat option" where
  "unsigned_literal s =
     (if s = ''inf'' then Some PInf
      else if s = ''nan'' then Some NaN
      else
        (let ip = takeWhile (\<lambda>c. c \<noteq> CHR ''.'') s;
             fp = drop 1 (dropWhile (\<lambda>c. c \<noteq> CHR ''.'') s)
         in if ip = [] \<and> fp = [] then None
            else
              (case (digits_value ip 0, digits_value fp 0) of
                 (Some i, Some f) \<Rightarrow> Some (Fin (real i + real f / 10 ^ length fp))
               | _ \<Rightarrow> None)))"

definition float_literal :: "string \<Rightarrow> pyfloat option" where
  "float_literal s =
     (case s of
        [] \<Rightarrow> None
      | c # r \<Rightarrow>
          if c = CHR ''-'' then map_option py_neg (unsigned_literal r)
          else if c = CHR ''+'' then unsigned_literal r
          else unsigned_literal s)"

definition demo_clock :: "(string \<times> real) list" where
  "demo_clock =
     [(''1970:01:01 00:00:00'', 0),
      (''2023:11:14 22:13:20'', 1700000000),
      (''2023:11:14 22:28:20'', 1700000900),
      (''2023:11:14 23:13:20'', 1700003600),
      (''2023:11:14 23:13:21'', 1700003601)]"

definition demo_env :: "(string \<times> (string \<times> pyval) list) list \<Rightarrow> (string \<times> string list list) list \<Rightarrow> env" where
  "demo_env photos csvs =
     \<lparr>round_float = Fin,
      get_metadata = (\<lambda>p. case map_of photos p of
                              None \<Rightarrow> Inl ExifToolError
                            | Some m \<Rightarrow> Inr [map_of m]),
      strptime_timestamp = (\<lambda>v. case v of
                                   Str s \<Rightarrow> (case map_of demo_clock s of
                                               None \<Rightarrow> Inl ValueError
                                             | Some t \<Rightarrow> Inr t)
                                 | Num x \<Rightarrow> Inl TypeError),
      fromtimestamp = (\<lambda>t. case t of
                              Fin x \<Rightarrow> Inr ''datetime''
                            | NaN \<Rightarrow> Inl ValueError
                            | _ \<Rightarrow> Inl OverflowError),
      rg_search = (\<lambda>lat lon. Inr [\<lparr>cc = ''JP'', name = ''Tokyo'', admin1 = ''Tokyo''\<rparr>]),
      float_of = (\<lambda>v. case v of
                         Str s \<Rightarrow> (case float_literal s of
                                     None \<Rightarrow> Inl ValueError
                                   | Some x \<Rightarrow> Inr x)
                       | Num x \<Rightarrow> Inr (Fin x)),
      set_tags = (\<lambda>p t ps. None),
      csv_reader = (\<lambda>p. case map_of csvs p of
                           None \<Rightarrow> Inl OSError
                         | Some rows \<Rightarrow> Inr (rows, None)),
      open_append = (\<lambda>p. None),
      writerow = (\<lambda>r. None),
      isfile = (\<lambda>p. p \<in> set (map fst photos)),
      isdir = (\<lambda>p. p = ''photos''),
      walk = (\<lambda>p. if p = ''photos'' then map fst photos else [])\<rparr>"

text \<open>Rows of a table, and photos taken 900, 3600 and 3601 seconds after the first row.\<close>

definition row_a :: gps_row where
  "row_a = (Fin 1700000000, Str ''35.0'', Str ''139.0'', Str ''10'')"

definition row_b :: gps_row where
  "row_b = (Fin 1700007200, Str ''36.0'', Str ''140.0'', Str ''20'')"

definition row_inf :: gps_row where
  "row_inf = (PInf, Str ''35.0'', Str ''139.0'', Str ''10'')"

definition row_nolat :: gps_row where
  "row_nolat = (Fin 1700000000, Str [], Str ''139.0'', Str ''10'')"

definition row_zero :: gps_row where
  "row_zero = (Fin 1700000000, Str ''0.0'', Str ''0.0'', Str ''0'')"

definition photo_900 :: "(string \<times> pyval) list" where
  "photo_900 = [(''EXIF:DateTimeOriginal'', Str ''2023:11:14 22:28:20'')]"

definition photo_3600 :: "(string \<times> pyval) list" where
  "photo_3600 = [(''EXIF:DateTimeOriginal'', Str ''2023:11:14 23:13:20'')]"

definition photo_3601 :: "(string \<times> pyval) list" where
  "photo_3601 = [(''EXIF:DateTimeOriginal'', Str ''2023:11:14 23:13:21'')]"

text \<open>
  Photos that carry a position: in Tokyo, in Tokyo at another altitude, on the equator,
  and one dated at the epoch.
\<close>

definition photo_tokyo :: "(string \<times> pyval) list" where
  "photo_tokyo =
     [(''EXIF:DateTimeOriginal'', Str ''2023:11:14 22:13:20''),
      (''EXIF:GPSLatitude'', Num 35), (''EXIF:GPSLongitude'', Num 139),
      (''EXIF:GPSAltitude'', Num 10)]"

definition photo_tokyo_high :: "(string \<times> pyval) list" where
  "photo_tokyo_high =
     [(''EXIF:DateTimeOriginal'', Str ''2023:11:14 22:13:20''),
      (''EXIF:GPSLatitude'', Num 35), (''EXIF:GPSLongitude'', Num 139),
      (''EXIF:GPSAltitude'', Num 20)]"

definition photo_equator :: "(string \<times> pyval) list" where
  "photo_equator =
     [(''EXIF:DateTimeOriginal'', Str ''2023:11:14 22:28:20''),
      (''EXIF:GPSLatitude'', Num 0), (''EXIF:GPSLongitude'', Num 139),
      (''EXIF:GPSAltitude'', Num 10)]"

definition photo_epoch :: "(string \<times> pyval) list" where
  "photo_epoch =
     [(''EXIF:DateTimeOriginal'', Str ''1970:01:01 00:00:00''),
      (''EXIF:GPSLatitude'', Num 35), (''EXIF:GPSLongitude'', Num 139),
      (''EXIF:GPSAltitude'', Num 10)]"

section \<open>Properties\<close>

subsection \<open>The nearest row\<close>

text \<open>
  Facts about the comparison of floats and the invariant of the loop: the running minimum
  is never NaN, it never grows, and no row seen so far has a strictly smaller computed
  difference. None of them depends on how differences are rounded.
\<close>

lemma py_lt_chain:
  "m \<noteq> NaN \<Longrightarrow> res \<noteq> NaN \<Longrightarrow> \<not> py_lt d m \<Longrightarrow> \<not> py_lt m res \<Longrightarrow> \<not> py_lt d res"
  by (cases d; cases m; cases res) auto

lemma py_lt_not_NaN: "py_lt a b \<Longrightarrow> a \<noteq> NaN"
  by (cases a; cases b) auto

lemma py_lt_trans: "py_lt a b \<Longrightarrow> py_lt b c \<Longrightarrow> py_lt a c"
  by (cases a; cases b; cases c) auto

lemma py_lt_antisym: "a \<noteq> NaN \<Longrightarrow> b \<noteq> NaN \<Longrightarrow> \<not> py_lt a b \<Longrightarrow> \<not> py_lt b a \<Longrightarrow> a = b"
  by (cases a; cases b) auto

lemma closest_loop_not_NaN:
  "m \<noteq> NaN \<Longrightarrow> fst (closest_loop env t rows (m, c)) \<noteq> NaN"
  by (induction rows arbitrary: m c) (auto simp: Let_def dest: py_lt_not_NaN)

lemma closest_loop_le_start:
  "m \<noteq> NaN \<Longrightarrow> \<not> py_lt m (fst (closest_loop env t rows (m, c)))"
proof (induction rows arbitrary: m c)
  case Nil
  then show ?case by (cases m) auto
next
  case (Cons r rows)
  let ?d = "time_diff_of env t r"
  show ?case
  proof (cases "py_lt ?d m")
    case True
    then have d: "?d \<noteq> NaN" by (rule py_lt_not_NaN)
    have "\<not> py_lt ?d (fst (closest_loop env t rows (?d, Some r)))"
      using Cons.IH [OF d] .
    moreover have "fst (closest_loop env t rows (?d, Some r)) \<noteq> NaN"
      using d by (rule closest_loop_not_NaN)
    ultimately have "\<not> py_lt m (fst (closest_loop env t rows (?d, Some r)))"
      using True Cons.prems
      by (cases m; cases ?d; cases "fst (closest_loop env t rows (?d, Some r))") auto
    with True show ?thesis by (simp add: Let_def time_diff_of_def)
  next
    case False
    with Cons show ?thesis by (simp add: Let_def time_diff_of_def)
  qed
qed

lemma closest_loop_minimal:
  "m \<noteq> NaN \<Longrightarrow> r \<in> set rows \<Longrightarrow>
   \<not> py_lt (time_diff_of env t r) (fst (closest_loop env t rows (m, c)))"
proof (induction rows arbitrary: m c)
  case Nil
  then show ?case by simp
next
  case (Cons x rows)
  let ?d = "time_diff_of env t x"
  show ?case
  proof (cases "py_lt ?d m")
    case True
    then have d: "?d \<noteq> NaN" by (rule py_lt_not_NaN)
    show ?thesis
    proof (cases "r = x")
      case True
      with \<open>py_lt ?d m\<close> closest_loop_le_start [OF d, of env t rows "Some x"]
      show ?thesis by (simp add: Let_def time_diff_of_def)
    next
      case False
      with Cons.prems have "r \<in> set rows" by simp
      from Cons.IH [OF d this] True show ?thesis by (simp add: Let_def time_diff_of_def)
    qed
  next
    case False
    show ?thesis
    proof (cases "r = x")
      case True
      have "\<not> py_lt ?d (fst (closest_loop env t rows (m, c)))"
        using py_lt_chain [OF Cons.prems(1) closest_loop_not_NaN [OF Cons.prems(1)] False
                closest_loop_le_start [OF Cons.prems(1)]] .
      with False True show ?thesis by (simp add: Let_def time_diff_of_def)
    next
      case r: False
      with Cons.prems have "r \<in> set rows" by simp
      from Cons.IH [OF Cons.prems(1) this] False show ?thesis
        by (simp add: Let_def time_diff_of_def)
    qed
  qed
qed

lemma closest_loop_result:
  "closest_loop env t rows (m, c) = (m, c) \<or>
   (\<exists>s\<in>set rows. closest_loop env t rows (m, c) = (time_diff_of env t s, Some s) \<and>
      py_lt (time_diff_of env t s) m)"
proof (induction rows arbitrary: m c)
  case Nil
  then show ?case by simp
next
  case (Cons x rows)
  let ?d = "time_diff_of env t x"
  show ?case
  proof (cases "py_lt ?d m")
    case True
    from Cons.IH [of ?d "Some x"] show ?thesis
    proof
      assume "closest_loop env t rows (?d, Some x) = (?d, Some x)"
      with True show ?thesis by (simp add: Let_def time_diff_of_def)
    next
      assume "\<exists>s\<in>set rows. closest_loop env t rows (?d, Some x) = (time_diff_of env t s, Some s) \<and>
                py_lt (time_diff_of env t s) ?d"
      then obtain s where s: "s \<in> set rows"
        "closest_loop env t rows (?d, Some x) = (time_diff_of env t s, Some s)"
        "py_lt (time_diff_of env t s) ?d" by blast
      from s(3) True have "py_lt (time_diff_of env t s) m" by (rule py_lt_trans)
      with s True show ?thesis by (auto simp: Let_def time_diff_of_def)
    qed
  next
    case False
    with Cons.IH [of m c] show ?thesis by (auto simp: Let_def time_diff_of_def)
  qed
qed

text \<open>
  A row whose computed difference from a finite timestamp is below \<open>+inf\<close> has a finite
  timestamp. Under rounding to nearest the computed difference is the rounding of the
  exact distance, so a row that is not farther in exact terms does not get a greater
  computed difference.
\<close>

lemma time_diff_finite_row:
  "py_lt (time_diff_of env (Fin t) r) PInf \<Longrightarrow> \<exists>u. fst r = Fin u"
  by (cases "fst r") (simp_all add: time_diff_of_def)

lemma rounded_zero: "correctly_rounded rnd \<Longrightarrow> rnd 0 = Fin 0"
proof -
  assume c: "correctly_rounded rnd"
  then have "rnd (- 0) = py_neg (rnd 0)" unfolding correctly_rounded_def by blast
  moreover from c have "rnd 0 \<noteq> NaN" unfolding correctly_rounded_def by blast
  ultimately show ?thesis by (cases "rnd 0") auto
qed

lemma rounded_abs:
  assumes "correctly_rounded rnd"
  shows "py_abs (rnd x) = rnd \<bar>x\<bar>"
proof -
  have nonneg: "py_abs (rnd y) = rnd y" if "0 \<le> y" for y
  proof -
    from assms that have "\<not> py_lt (rnd y) (rnd 0)" unfolding correctly_rounded_def by blast
    moreover from assms have "rnd y \<noteq> NaN" unfolding correctly_rounded_def by blast
    ultimately show ?thesis using rounded_zero [OF assms] by (cases "rnd y") auto
  qed
  show ?thesis
  proof (cases "0 \<le> x")
    case True
    with nonneg [of x] show ?thesis by simp
  next
    case False
    from assms have "rnd (- (- x)) = py_neg (rnd (- x))"
      unfolding correctly_rounded_def by blast
    then have "py_abs (rnd x) = py_abs (rnd (- x))" by (cases "rnd (- x)") simp_all
    with nonneg [of "- x"] False show ?thesis by simp
  qed
qed

lemma time_diff_rounded:
  "correctly_rounded (round_float env) \<Longrightarrow> fst r = Fin u \<Longrightarrow>
   time_diff_of env (Fin t) r = round_float env \<bar>t - u\<bar>"
  by (simp add: time_diff_of_def rounded_abs)

lemma time_diff_mono:
  assumes "correctly_rounded (round_float env)" and "fst r = Fin v" and "fst s = Fin u"
      and "\<bar>t - v\<bar> \<le> \<bar>t - u\<bar>"
  shows "\<not> py_lt (time_diff_of env (Fin t) s) (time_diff_of env (Fin t) r)"
  using assms unfolding correctly_rounded_def
  by (simp add: time_diff_rounded [OF assms(1)])

text \<open>
  C2 (as amended). For every timestamp \<open>T\<close> the lookup leaves the globals, and so the
  table, as they were. It compares the differences \<^verbatim>\<open>abs(T - row[0])\<close> as the float
  arithmetic computes them. When no row has a computed difference below \<open>+inf\<close> (the
  empty table; rows whose timestamp is infinite or NaN; differences that overflow) it
  returns \<open>(+inf, ())\<close>. Otherwise it returns a row \<open>s\<close> of the table together with the
  computed difference of \<open>s\<close>, which is below \<open>+inf\<close>, and no row of the table has a
  strictly smaller computed difference. When moreover \<open>T\<close> is finite and the arithmetic
  rounds to nearest, \<open>s\<close> has a finite timestamp and is nearest up to rounding: every row
  with a finite timestamp is at least as far from \<open>T\<close> in exact terms as \<open>s\<close>, or has the
  same computed difference as \<open>s\<close>.
\<close>

theorem get_closest_gps_row_nearest:
  "snd (get_closest_gps_row env g T) = g \<and>
   (GPS_TABLE g = [] \<longrightarrow> fst (get_closest_gps_row env g T) = (PInf, None)) \<and>
   ((\<forall>r\<in>set (GPS_TABLE g). \<not> py_lt (time_diff_of env T r) PInf) \<longrightarrow>
      fst (get_closest_gps_row env g T) = (PInf, None)) \<and>
   ((\<exists>r\<in>set (GPS_TABLE g). py_lt (time_diff_of env T r) PInf) \<longrightarrow>
      (\<exists>s\<in>set (GPS_TABLE g).
         fst (get_closest_gps_row env g T) = (time_diff_of env T s, Some s) \<and>
         py_lt (time_diff_of env T s) PInf \<and>
         (\<forall>r\<in>set (GPS_TABLE g). \<not> py_lt (time_diff_of env T r) (time_diff_of env T s)) \<and>
         (correctly_rounded (round_float env) \<longrightarrow>
            (\<forall>t. T = Fin t \<longrightarrow>
               (\<exists>u. fst s = Fin u \<and>
                  (\<forall>r\<in>set (GPS_TABLE g). \<forall>v. fst r = Fin v \<longrightarrow>
                     \<bar>t - u\<bar> \<le> \<bar>t - v\<bar> \<or>
                     time_diff_of env T r = time_diff_of env T s))))))"
proof (intro conjI impI)
  show "snd (get_closest_gps_row env g T) = g"
    by (simp add: get_closest_gps_row_def)
next
  assume "GPS_TABLE g = []"
  then show "fst (get_closest_gps_row env g T) = (PInf, None)"
    by (simp add: get_closest_gps_row_def)
next
  assume "\<forall>r\<in>set (GPS_TABLE g). \<not> py_lt (time_diff_of env T r) PInf"
  with closest_loop_result [of env T "GPS_TABLE g" PInf None]
  show "fst (get_closest_gps_row env g T) = (PInf, None)"
    by (auto simp: get_closest_gps_row_def)
next
  assume "\<exists>r\<in>set (GPS_TABLE g). py_lt (time_diff_of env T r) PInf"
  then obtain r0 where r0: "r0 \<in> set (GPS_TABLE g)" "py_lt (time_diff_of env T r0) PInf"
    by blast
  let ?res = "closest_loop env T (GPS_TABLE g) (PInf, None)"
  have min: "\<And>r. r \<in> set (GPS_TABLE g) \<Longrightarrow> \<not> py_lt (time_diff_of env T r) (fst ?res)"
    by (rule closest_loop_minimal) simp
  from min [OF r0(1)] r0(2) have "fst ?res \<noteq> PInf" by auto
  with closest_loop_result [of env T "GPS_TABLE g" PInf None]
  obtain s where s: "s \<in> set (GPS_TABLE g)" "?res = (time_diff_of env T s, Some s)"
    "py_lt (time_diff_of env T s) PInf" by auto
  have m1: "\<forall>r\<in>set (GPS_TABLE g). \<not> py_lt (time_diff_of env T r) (time_diff_of env T s)"
    using min s(2) by simp
  have m2: "\<exists>u. fst s = Fin u \<and>
      (\<forall>r\<in>set (GPS_TABLE g). \<forall>v. fst r = Fin v \<longrightarrow>
         \<bar>t - u\<bar> \<le> \<bar>t - v\<bar> \<or> time_diff_of env T r = time_diff_of env T s)"
    if c: "correctly_rounded (round_float env)" and T: "T = Fin t" for t
  proof -
    from s(3) T obtain u where u: "fst s = Fin u" by (auto dest: time_diff_finite_row)
    have "\<bar>t - u\<bar> \<le> \<bar>t - v\<bar> \<or> time_diff_of env T r = time_diff_of env T s"
      if r: "r \<in> set (GPS_TABLE g)" and v: "fst r = Fin v" for r v
    proof (cases "\<bar>t - u\<bar> \<le> \<bar>t - v\<bar>")
      case True
      then show ?thesis by simp
    next
      case False
      then have "\<bar>t - v\<bar> \<le> \<bar>t - u\<bar>" by simp
      from time_diff_mono [OF c v u this] T
      have a: "\<not> py_lt (time_diff_of env T s) (time_diff_of env T r)" by simp
      from m1 r have b: "\<not> py_lt (time_diff_of env T r) (time_diff_of env T s)" by blast
      from c have nn: "\<And>x. round_float env x \<noteq> NaN" unfolding correctly_rounded_def by blast
      have "time_diff_of env T r \<noteq> NaN" "time_diff_of env T s \<noteq> NaN"
        using T u v nn by (simp_all add: time_diff_rounded [OF c])
      from py_lt_antisym [OF this b a] show ?thesis by simp
    qed
    with u show ?thesis by blast
  qed
  show "\<exists>s\<in>set (GPS_TABLE g).
         fst (get_closest_gps_row env g T) = (time_diff_of env T s, Some s) \<and>
         py_lt (time_diff_of env T s) PInf \<and>
         (\<forall>r\<in>set (GPS_TABLE g). \<not> py_lt (time_diff_of env T r) (time_diff_of env T s)) \<and>
         (correctly_rounded (round_float env) \<longrightarrow>
            (\<forall>t. T = Fin t \<longrightarrow>
               (\<exists>u. fst s = Fin u \<and>
                  (\<forall>r\<in>set (GPS_TABLE g). \<forall>v. fst r = Fin v \<longrightarrow>
                     \<bar>t - u\<bar> \<le> \<bar>t - v\<bar> \<or>
                     time_diff_of env T r = time_diff_of env T s))))"
    using s m1 m2 unfolding get_closest_gps_row_def by (intro bexI [of _ s]) auto
qed

text \<open>
  At a table of three rows, one of them with an infinite timestamp, the row 900 seconds
  before the photo is returned and the table is left as it was.
\<close>

theorem get_closest_gps_row_nearest_witness:
  "correctly_rounded (round_float (demo_env [] [])) \<and>
   get_closest_gps_row (demo_env [] []) \<lparr>GPS_TABLE = [row_inf, row_b, row_a], OVERWRITE = False\<rparr>
     (Fin 1700000900) =
     ((Fin 900, Some row_a), \<lparr>GPS_TABLE = [row_inf, row_b, row_a], OVERWRITE = False\<rparr>) \<and>
   time_diff_of (demo_env [] []) (Fin 1700000900) row_inf = PInf \<and>
   time_diff_of (demo_env [] []) (Fin 1700000900) row_b = Fin 6300 \<and>
   time_diff_of (demo_env [] []) (Fin 1700000900) row_a = Fin 900"
proof -
  let ?e = "demo_env [] []"
  let ?g = "\<lparr>GPS_TABLE = [row_inf, row_b, row_a], OVERWRITE = False\<rparr>"
  have c: "correctly_rounded (round_float ?e)"
    by (simp add: correctly_rounded_def demo_env_def)
  have d: "time_diff_of ?e (Fin 1700000900) row_inf = PInf"
    "time_diff_of ?e (Fin 1700000900) row_b = Fin 6300"
    "time_diff_of ?e (Fin 1700000900) row_a = Fin 900"
    by (simp_all add: time_diff_of_def demo_env_def row_inf_def row_b_def row_a_def)
  have h: "\<exists>r\<in>set (GPS_TABLE ?g). py_lt (time_diff_of ?e (Fin 1700000900) r) PInf"
    using d by simp
  from get_closest_gps_row_nearest [of ?e ?g "Fin 1700000900"] h
  obtain s where s: "s \<in> set (GPS_TABLE ?g)"
    "fst (get_closest_gps_row ?e ?g (Fin 1700000900)) = (time_diff_of ?e (Fin 1700000900) s, Some s)"
    "py_lt (time_diff_of ?e (Fin 1700000900) s) PInf"
    "\<forall>r\<in>set (GPS_TABLE ?g).
       \<not> py_lt (time_diff_of ?e (Fin 1700000900) r) (time_diff_of ?e (Fin 1700000900) s)"
    and frame: "snd (get_closest_gps_row ?e ?g (Fin 1700000900)) = ?g"
    by blast
  from s(1) s(3) s(4) d have "s = row_a" by auto
  with s(2) d frame have "get_closest_gps_row ?e ?g (Fin 1700000900) = ((Fin 900, Some row_a), ?g)"
    by (simp add: prod_eq_iff)
  with c d show ?thesis by simp
qed

text \<open>
  C2 as stated fails: a table whose only row has the timestamp \<^verbatim>\<open>inf\<close> (\<^verbatim>\<open>float("inf")\<close> is
  what \<^verbatim>\<open>load_gps_csv\<close> makes of the cell \<^verbatim>\<open>inf\<close>) is not empty, and the lookup returns
  \<open>(+inf, ())\<close>, which is no row of the table: the difference of a finite timestamp and
  \<^verbatim>\<open>inf\<close> is \<^verbatim>\<open>-inf\<close> whatever the rounding, and \<^verbatim>\<open>inf < inf\<close> is false.
\<close>

theorem get_closest_gps_row_counterexample:
  "GPS_TABLE \<lparr>GPS_TABLE = [row_inf], OVERWRITE = False\<rparr> \<noteq> [] \<and>
   fst (get_closest_gps_row (demo_env [] []) \<lparr>GPS_TABLE = [row_inf], OVERWRITE = False\<rparr>
          (Fin 1700000900)) = (PInf, None) \<and>
   snd (fst (get_closest_gps_row (demo_env [] []) \<lparr>GPS_TABLE = [row_inf], OVERWRITE = False\<rparr>
               (Fin 1700000900))) \<noteq> Some row_inf"
  by (simp add: row_inf_def get_closest_gps_row_def)

subsection \<open>Writing one photo\<close>

text \<open>
  What \<^verbatim>\<open>write_photo_gps\<close> does on each of its paths, in terms of what the outside
  answers. Reading a photo prints and calls the metadata reader only.
\<close>

lemma read_photo_gps_events:
  "e \<in> set (snd (read_photo_gps env p)) \<Longrightarrow> \<not> is_set_tags e \<and> \<not> is_search e \<and> \<not> is_address e"
  by (auto simp: read_photo_gps_def Let_def split: sum.splits list.splits option.splits)

lemma read_photo_gps_Fin:
  "read_photo_gps env p = (Some (ts, lat, lon, alt), ev) \<Longrightarrow> \<exists>x. ts = Fin x"
  by (auto simp: read_photo_gps_def Let_def split: sum.splits list.splits option.splits)

lemma gps_to_address_ok:
  "rg_search env lat lon = Inr (res # others) \<Longrightarrow>
   gps_to_address env lat lon =
     (Inr (cc res @ '', '' @ name res @ '', '' @ admin1 res @ '', '' @ cc res), [Search lat lon])"
  by (simp add: gps_to_address_def)

lemma gps_to_address_events: "snd (gps_to_address env lat lon) = [Search lat lon]"
  by (simp add: gps_to_address_def split: sum.splits list.splits)

lemma wpg_has_gps:
  "read_photo_gps env p = (Some (ts, elat, elon, ealt), ev1) \<Longrightarrow> truthy elat \<Longrightarrow> truthy elon \<Longrightarrow>
   write_photo_gps env g p = (Inr (), ev1)"
  by (simp add: write_photo_gps_def)

lemma wpg_rejected:
  "read_photo_gps env p = (Some (ts, elat, elon, ealt), ev1) \<Longrightarrow> \<not> (truthy elat \<and> truthy elon) \<Longrightarrow>
   fst (get_closest_gps_row env g ts) = (d, Some (timestamp, lat, lon, alt)) \<Longrightarrow>
   fromtimestamp env timestamp = Inr dt \<Longrightarrow>
   rg_search env lat lon = Inr (res # others) \<Longrightarrow>
   py_gt d (Fin 3600) \<Longrightarrow>
   write_photo_gps env g p = (Inr (), ev1 @ [Search lat lon, Print (TimeDiffError p d dt)])"
  by (simp add: write_photo_gps_def gps_to_address_ok)

lemma wpg_accepted:
  "read_photo_gps env p = (Some (ts, elat, elon, ealt), ev1) \<Longrightarrow> \<not> (truthy elat \<and> truthy elon) \<Longrightarrow>
   fst (get_closest_gps_row env g ts) = (d, Some (timestamp, lat, lon, alt)) \<Longrightarrow>
   fromtimestamp env timestamp = Inr dt \<Longrightarrow>
   rg_search env lat lon = Inr (res # others) \<Longrightarrow>
   \<not> py_gt d (Fin 3600) \<Longrightarrow>
   float_of env lat = Inr flat \<Longrightarrow> float_of env lon = Inr flon \<Longrightarrow>
   snd (write_photo_gps env g p) =
     ev1 @ [Search lat lon, Print (Matched p dt lat lon),
            Print (Address p (cc res @ '', '' @ name res @ '', '' @ admin1 res @ '', '' @ cc res)),
            SetTags p (gps_tags lat lon alt flat flon) (tool_params g)] @
     (case set_tags env p (gps_tags lat lon alt flat flon) (tool_params g) of
        Some e \<Rightarrow> [] | None \<Rightarrow> [Print (Done p)])"
  by (simp add: write_photo_gps_def gps_to_address_ok Let_def split: option.splits)

lemma closest_loop_Some_mem:
  "closest_loop env t rows (m, c) = (d, Some s) \<Longrightarrow> c = Some s \<or> s \<in> set rows"
  by (induction rows arbitrary: m c) (auto simp: Let_def split: if_splits)

lemma get_closest_mem:
  "fst (get_closest_gps_row env g t) = (d, Some s) \<Longrightarrow> s \<in> set (GPS_TABLE g)"
  by (auto simp: get_closest_gps_row_def dest: closest_loop_Some_mem)

lemma wpg_set_tags:
  assumes "SetTags p' t ps \<in> set (snd (write_photo_gps env g p))"
  shows "p' = p \<and> ps = tool_params g \<and>
         (\<exists>ts lat lon alt flat flon. (ts, lat, lon, alt) \<in> set (GPS_TABLE g) \<and>
            float_of env lat = Inr flat \<and> float_of env lon = Inr flon \<and>
            t = gps_tags lat lon alt flat flon)"
proof -
  obtain r ev1 where r: "read_photo_gps env p = (r, ev1)" by (cases "read_photo_gps env p")
  have ev1: "SetTags p' t ps \<notin> set ev1"
    using read_photo_gps_events [of "SetTags p' t ps" env p] r by auto
  show ?thesis
  proof (cases r)
    case None
    with assms r ev1 show ?thesis by (simp add: write_photo_gps_def)
  next
    case (Some row)
    obtain d c where c: "fst (get_closest_gps_row env g (fst row)) = (d, c)"
      by (cases "fst (get_closest_gps_row env g (fst row))")
    show ?thesis
    proof (cases c)
      case None
      with assms r ev1 Some c show ?thesis by (simp add: write_photo_gps_def split: if_splits)
    next
      case some: (Some s)
      obtain ts lat lon alt where s: "s = (ts, lat, lon, alt)" by (cases s)
      have mem: "(ts, lat, lon, alt) \<in> set (GPS_TABLE g)"
        using c some s get_closest_mem by blast
      have ev2: "snd (gps_to_address env lat lon) = [Search lat lon]"
        by (rule gps_to_address_events)
      obtain a where a: "gps_to_address env lat lon = (a, [Search lat lon])"
        using ev2 by (cases "gps_to_address env lat lon") simp
      from assms r ev1 Some c some s a mem show ?thesis
        by (auto simp: write_photo_gps_def Let_def split: if_splits sum.splits option.splits)
           blast+
    qed
  qed
qed


lemma wpg_float_lat_fails:
  "read_photo_gps env p = (Some (ts, elat, elon, ealt), ev1) \<Longrightarrow> \<not> (truthy elat \<and> truthy elon) \<Longrightarrow>
   fst (get_closest_gps_row env g ts) = (d, Some (timestamp, lat, lon, alt)) \<Longrightarrow>
   fromtimestamp env timestamp = Inr dt \<Longrightarrow>
   rg_search env lat lon = Inr (res # others) \<Longrightarrow>
   \<not> py_gt d (Fin 3600) \<Longrightarrow>
   float_of env lat = Inl e \<Longrightarrow>
   write_photo_gps env g p =
     (Inl e, ev1 @ [Search lat lon, Print (Matched p dt lat lon),
            Print (Address p (cc res @ '', '' @ name res @ '', '' @ admin1 res @ '', '' @ cc res))])"
  by (simp add: write_photo_gps_def gps_to_address_ok Let_def)

lemma wpg_rejected_no_write:
  assumes "read_photo_gps env p = (Some (ts, elat, elon, ealt), ev1)"
      and "fst (get_closest_gps_row env g ts) = (d, Some (timestamp, lat, lon, alt))"
      and "py_gt d (Fin 3600)"
  shows "filter is_set_tags (snd (write_photo_gps env g p)) = [] \<and>
         filter is_address (snd (write_photo_gps env g p)) = []"
proof -
  have ev1: "filter is_set_tags ev1 = []" "filter is_address ev1 = []"
    using read_photo_gps_events [of _ env p] assms(1) by (auto simp: filter_empty_conv)
  obtain a where a: "gps_to_address env lat lon = (a, [Search lat lon])"
    using gps_to_address_events [of env lat lon] by (cases "gps_to_address env lat lon") simp
  from assms ev1 a show ?thesis
    by (auto simp: write_photo_gps_def split: sum.splits)
qed

lemma filter_read_events:
  "read_photo_gps env p = (r, ev1) \<Longrightarrow>
   filter is_set_tags ev1 = [] \<and> filter is_search ev1 = [] \<and> filter is_address ev1 = []"
  using read_photo_gps_events [of _ env p] by (auto simp: filter_empty_conv)

text \<open>
  C3 (as amended). Take a photo whose timestamp was read, that does not already carry
  both a latitude and a longitude, and whose nearest row is at distance \<open>x\<close> (the
  distance to a row that was found is always finite).
  If \<open>x > 3600\<close>, \<^verbatim>\<open>set_tags\<close> is not called, and when the row's timestamp converts to a
  date and the geocoder answers, the run prints the time-difference error and returns. If
  \<open>x \<le> 3600\<close> (3600 itself included), the row's timestamp converts to a date, the
  geocoder answers and \<^verbatim>\<open>float\<close> accepts the row's latitude and longitude, then
  \<^verbatim>\<open>set_tags\<close> is called exactly once, with the row's position.
\<close>

theorem write_photo_gps_threshold:
  assumes "read_photo_gps env p = (Some (ts, elat, elon, ealt), ev1)"
      and "\<not> (truthy elat \<and> truthy elon)"
      and "fst (get_closest_gps_row env g ts) = (Fin x, Some (timestamp, lat, lon, alt))"
  shows "(3600 < x \<longrightarrow> filter is_set_tags (snd (write_photo_gps env g p)) = []) \<and>
         (3600 < x \<and> fromtimestamp env timestamp = Inr dt \<and>
          rg_search env lat lon = Inr (res # others) \<longrightarrow>
            write_photo_gps env g p =
              (Inr (), ev1 @ [Search lat lon, Print (TimeDiffError p (Fin x) dt)])) \<and>
         (x \<le> 3600 \<and> fromtimestamp env timestamp = Inr dt \<and>
          rg_search env lat lon = Inr (res # others) \<and>
          float_of env lat = Inr flat \<and> float_of env lon = Inr flon \<longrightarrow>
            filter is_set_tags (snd (write_photo_gps env g p)) =
              [SetTags p (gps_tags lat lon alt flat flon) (tool_params g)])"
proof (intro conjI impI)
  assume "3600 < x"
  then have "py_gt (Fin x) (Fin 3600)" by (simp add: py_gt_def)
  with wpg_rejected_no_write [OF assms(1) assms(3)]
  show "filter is_set_tags (snd (write_photo_gps env g p)) = []" by simp
next
  assume a: "3600 < x \<and> fromtimestamp env timestamp = Inr dt \<and>
             rg_search env lat lon = Inr (res # others)"
  then have "py_gt (Fin x) (Fin 3600)" by (simp add: py_gt_def)
  with a wpg_rejected [OF assms]
  show "write_photo_gps env g p =
          (Inr (), ev1 @ [Search lat lon, Print (TimeDiffError p (Fin x) dt)])" by blast
next
  assume a: "x \<le> 3600 \<and> fromtimestamp env timestamp = Inr dt \<and>
             rg_search env lat lon = Inr (res # others) \<and>
             float_of env lat = Inr flat \<and> float_of env lon = Inr flon"
  then have ngt: "\<not> py_gt (Fin x) (Fin 3600)" by (simp add: py_gt_def)
  from a have
    "snd (write_photo_gps env g p) =
       ev1 @ [Search lat lon, Print (Matched p dt lat lon),
              Print (Address p (cc res @ '', '' @ name res @ '', '' @ admin1 res @ '', '' @ cc res)),
              SetTags p (gps_tags lat lon alt flat flon) (tool_params g)] @
       (case set_tags env p (gps_tags lat lon alt flat flon) (tool_params g) of
          Some e \<Rightarrow> [] | None \<Rightarrow> [Print (Done p)])"
    by (intro wpg_accepted [OF assms]) (use ngt in auto)
  with filter_read_events [OF assms(1)]
  show "filter is_set_tags (snd (write_photo_gps env g p)) =
          [SetTags p (gps_tags lat lon alt flat flon) (tool_params g)]"
    by (simp split: option.splits)
qed

subsection \<open>Facts about the examples\<close>

lemma float_literal_examples:
  "float_literal ''35.0'' = Some (Fin 35)"
  "float_literal ''139.0'' = Some (Fin 139)"
  "float_literal ''0.0'' = Some (Fin 0)"
  "float_literal ''1700000000'' = Some (Fin 1700000000)"
  "float_literal ''nan'' = Some NaN"
  "float_literal [] = None"
  by (simp_all add: float_literal_def unsigned_literal_def digit_of_def)

text \<open>
  A photo taken exactly 3600 seconds after the only row is written; one taken 3601
  seconds after it is not.
\<close>

theorem write_photo_gps_threshold_witness:
  "filter is_set_tags
     (snd (write_photo_gps (demo_env [(''a.jpg'', photo_3600)] [])
             \<lparr>GPS_TABLE = [row_a], OVERWRITE = False\<rparr> ''a.jpg'')) =
     [SetTags ''a.jpg''
        (gps_tags (Str ''35.0'') (Str ''139.0'') (Str ''10'') (Fin 35) (Fin 139)) [''-P'', []]] \<and>
   filter is_set_tags
     (snd (write_photo_gps (demo_env [(''a.jpg'', photo_3601)] [])
             \<lparr>GPS_TABLE = [row_a], OVERWRITE = False\<rparr> ''a.jpg'')) = []"
proof -
  let ?g = "\<lparr>GPS_TABLE = [row_a], OVERWRITE = False\<rparr>"
  let ?e1 = "demo_env [(''a.jpg'', photo_3600)] []"
  let ?e2 = "demo_env [(''a.jpg'', photo_3601)] []"
  have r1: "read_photo_gps ?e1 ''a.jpg'' =
      (Some (Fin 1700003600, Str [], Str [], Str []),
       [GetMetadata ''a.jpg'', Print (ReadOk ''a.jpg'' (Fin 1700003600) (Str []) (Str []))])"
    by (simp add: read_photo_gps_def demo_env_def photo_3600_def demo_clock_def meta_get_def Let_def)
  have r2: "read_photo_gps ?e2 ''a.jpg'' =
      (Some (Fin 1700003601, Str [], Str [], Str []),
       [GetMetadata ''a.jpg'', Print (ReadOk ''a.jpg'' (Fin 1700003601) (Str []) (Str []))])"
    by (simp add: read_photo_gps_def demo_env_def photo_3601_def demo_clock_def meta_get_def Let_def)
  have ng: "\<not> (truthy (Str []) \<and> truthy (Str []))" by simp
  have n1: "fst (get_closest_gps_row ?e1 ?g (Fin 1700003600)) =
      (Fin 3600, Some (Fin 1700000000, Str ''35.0'', Str ''139.0'', Str ''10''))"
    by (simp add: get_closest_gps_row_def demo_env_def row_a_def)
  have n2: "fst (get_closest_gps_row ?e2 ?g (Fin 1700003601)) =
      (Fin 3601, Some (Fin 1700000000, Str ''35.0'', Str ''139.0'', Str ''10''))"
    by (simp add: get_closest_gps_row_def demo_env_def row_a_def)
  have env1: "fromtimestamp ?e1 (Fin 1700000000) = Inr ''datetime''"
    "rg_search ?e1 (Str ''35.0'') (Str ''139.0'') =
       Inr [\<lparr>cc = ''JP'', name = ''Tokyo'', admin1 = ''Tokyo''\<rparr>]"
    "float_of ?e1 (Str ''35.0'') = Inr (Fin 35)"
    "float_of ?e1 (Str ''139.0'') = Inr (Fin 139)"
    by (simp_all add: demo_env_def float_literal_examples)
  from write_photo_gps_threshold [OF r1 ng n1, where dt = "''datetime''" and flat = "Fin 35"
      and flon = "Fin 139" and others = "[]"
      and res = "\<lparr>cc = ''JP'', name = ''Tokyo'', admin1 = ''Tokyo''\<rparr>"] env1
  have w1: "filter is_set_tags (snd (write_photo_gps ?e1 ?g ''a.jpg'')) =
     [SetTags ''a.jpg''
        (gps_tags (Str ''35.0'') (Str ''139.0'') (Str ''10'') (Fin 35) (Fin 139)) [''-P'', []]]"
    by (simp add: tool_params_def)
  from write_photo_gps_threshold [OF r2 ng n2]
  have w2: "filter is_set_tags (snd (write_photo_gps ?e2 ?g ''a.jpg'')) = []"
    by simp
  from w1 w2 show ?thesis by simp
qed

text \<open>
  C3 as stated fails: the row \<^verbatim>\<open>1700000000,,139.0,10\<close> loads (only the first cell goes
  through \<^verbatim>\<open>float\<close>), it is 900 seconds from the photo, and \<^verbatim>\<open>float("")\<close> raises
  ValueError before \<^verbatim>\<open>set_tags\<close> is reached: nothing is written.
\<close>

theorem write_photo_gps_threshold_counterexample:
  "fst (get_closest_gps_row (demo_env [(''a.jpg'', photo_900)] [])
          \<lparr>GPS_TABLE = [row_nolat], OVERWRITE = False\<rparr> (Fin 1700000900)) =
     (Fin 900, Some row_nolat) \<and>
   write_photo_gps (demo_env [(''a.jpg'', photo_900)] [])
     \<lparr>GPS_TABLE = [row_nolat], OVERWRITE = False\<rparr> ''a.jpg'' =
     (Inl ValueError,
      [GetMetadata ''a.jpg'', Print (ReadOk ''a.jpg'' (Fin 1700000900) (Str []) (Str [])),
       Search (Str []) (Str ''139.0''),
       Print (Matched ''a.jpg'' ''datetime'' (Str []) (Str ''139.0'')),
       Print (Address ''a.jpg'' ''JP, Tokyo, Tokyo, JP'')])"
proof -
  let ?g = "\<lparr>GPS_TABLE = [row_nolat], OVERWRITE = False\<rparr>"
  let ?e = "demo_env [(''a.jpg'', photo_900)] []"
  have r: "read_photo_gps ?e ''a.jpg'' =
      (Some (Fin 1700000900, Str [], Str [], Str []),
       [GetMetadata ''a.jpg'', Print (ReadOk ''a.jpg'' (Fin 1700000900) (Str []) (Str []))])"
    by (simp add: read_photo_gps_def demo_env_def photo_900_def demo_clock_def meta_get_def Let_def)
  have n: "fst (get_closest_gps_row ?e ?g (Fin 1700000900)) =
      (Fin 900, Some (Fin 1700000000, Str [], Str ''139.0'', Str ''10''))"
    by (simp add: get_closest_gps_row_def demo_env_def row_nolat_def)
  have "write_photo_gps ?e ?g ''a.jpg'' =
      (Inl ValueError,
       [GetMetadata ''a.jpg'', Print (ReadOk ''a.jpg'' (Fin 1700000900) (Str []) (Str []))] @
       [Search (Str []) (Str ''139.0''), Print (Matched ''a.jpg'' ''datetime'' (Str []) (Str ''139.0'')),
        Print (Address ''a.jpg''
          (cc \<lparr>cc = ''JP'', name = ''Tokyo'', admin1 = ''Tokyo''\<rparr> @ '', '' @
           name \<lparr>cc = ''JP'', name = ''Tokyo'', admin1 = ''Tokyo''\<rparr> @ '', '' @
           admin1 \<lparr>cc = ''JP'', name = ''Tokyo'', admin1 = ''Tokyo''\<rparr> @ '', '' @
           cc \<lparr>cc = ''JP'', name = ''Tokyo'', admin1 = ''Tokyo''\<rparr>))])"
    by (rule wpg_float_lat_fails [OF r _ n, where others = "[]"])
       (simp_all add: demo_env_def py_gt_def float_literal_examples)
  then show ?thesis by (simp add: get_closest_gps_row_def demo_env_def row_nolat_def)
qed

subsection \<open>Photos that already carry a position\<close>

text \<open>
  What the guard of \<^verbatim>\<open>write_photo_gps\<close> gives: when the latitude and the longitude read
  from the photo are both true in Python's sense (a non-empty string, a number other than
  zero), the function returns after the read, whatever the table holds.
\<close>

lemma wpg_keeps_truthy_position:
  assumes "read_photo_gps env p = (Some (ts, elat, elon, ealt), ev1)"
      and "truthy elat" and "truthy elon"
  shows "write_photo_gps env g p = (Inr (), ev1) \<and>
         filter is_set_tags (snd (write_photo_gps env g p)) = []"
  using wpg_has_gps [OF assms] filter_read_events [OF assms(1)] by simp

text \<open>
  C4 fails on the code. The property proved: a photo whose record holds the number \<open>0\<close>
  as its latitude or as its longitude (a photo taken on the equator or on the prime
  meridian) is treated as a photo without a position, because \<open>0\<close> is false in the test
  \<^verbatim>\<open>exif_row[1] and exif_row[2]\<close>: when its nearest row is within 3600 seconds and the
  calls on the way succeed, \<^verbatim>\<open>set_tags\<close> is called and the position of the photo is
  overwritten with the row's.
\<close>

theorem write_photo_gps_overwrites_zero_position:
  assumes "read_photo_gps env p = (Some (ts, elat, elon, ealt), ev1)"
      and "elat = Num 0 \<or> elon = Num 0"
      and "fst (get_closest_gps_row env g ts) = (Fin x, Some (timestamp, lat, lon, alt))"
      and "x \<le> 3600"
      and "fromtimestamp env timestamp = Inr dt"
      and "rg_search env lat lon = Inr (res # others)"
      and "float_of env lat = Inr flat" and "float_of env lon = Inr flon"
  shows "filter is_set_tags (snd (write_photo_gps env g p)) =
           [SetTags p (gps_tags lat lon alt flat flon) (tool_params g)]"
proof -
  have ng: "\<not> (truthy elat \<and> truthy elon)" using assms(2) by auto
  have le: "\<not> py_gt (Fin x) (Fin 3600)" using assms(4) by (simp add: py_gt_def)
  from wpg_accepted [OF assms(1) ng assms(3) assms(5) assms(6) le assms(7) assms(8)]
       filter_read_events [OF assms(1)]
  show ?thesis by (simp split: option.splits)
qed

text \<open>
  A photo on the equator, with latitude \<open>0\<close> and longitude \<open>139\<close> in its record, 900
  seconds from the only row of the table: its position is overwritten with the row's.
\<close>

theorem write_photo_gps_overwrites_zero_position_witness:
  "fst (read_photo_gps (demo_env [(''a.jpg'', photo_equator)] []) ''a.jpg'') =
     Some (Fin 1700000900, Num 0, Num 139, Num 10) \<and>
   filter is_set_tags
     (snd (write_photo_gps (demo_env [(''a.jpg'', photo_equator)] [])
             \<lparr>GPS_TABLE = [row_a], OVERWRITE = False\<rparr> ''a.jpg'')) =
     [SetTags ''a.jpg''
        [(''EXIF:GPSLatitude'', Str ''35.0''), (''EXIF:GPSLongitude'', Str ''139.0''),
         (''EXIF:GPSAltitude'', Str ''10''), (''EXIF:GPSLatitudeRef'', Str ''N''),
         (''EXIF:GPSLongitudeRef'', Str ''E'')]
        [''-P'', []]]"
proof -
  let ?g = "\<lparr>GPS_TABLE = [row_a], OVERWRITE = False\<rparr>"
  let ?e = "demo_env [(''a.jpg'', photo_equator)] []"
  have r: "read_photo_gps ?e ''a.jpg'' =
      (Some (Fin 1700000900, Num 0, Num 139, Num 10),
       [GetMetadata ''a.jpg'', Print (ReadOk ''a.jpg'' (Fin 1700000900) (Num 0) (Num 139))])"
    by (simp add: read_photo_gps_def demo_env_def photo_equator_def demo_clock_def meta_get_def Let_def)
  have z: "Num 0 = Num 0 \<or> Num 139 = Num 0" by simp
  have n: "fst (get_closest_gps_row ?e ?g (Fin 1700000900)) =
      (Fin 900, Some (Fin 1700000000, Str ''35.0'', Str ''139.0'', Str ''10''))"
    by (simp add: get_closest_gps_row_def demo_env_def row_a_def)
  have x: "(900::real) \<le> 3600" by simp
  have env: "fromtimestamp ?e (Fin 1700000000) = Inr ''datetime''"
    "rg_search ?e (Str ''35.0'') (Str ''139.0'') =
       Inr [\<lparr>cc = ''JP'', name = ''Tokyo'', admin1 = ''Tokyo''\<rparr>]"
    "float_of ?e (Str ''35.0'') = Inr (Fin 35)"
    "float_of ?e (Str ''139.0'') = Inr (Fin 139)"
    by (simp_all add: demo_env_def float_literal_examples)
  from write_photo_gps_overwrites_zero_position [OF r z n x env] r
  show ?thesis by (simp add: gps_tags_def tool_params_def py_gt_def)
qed

subsection \<open>The geocoder\<close>

lemma wpg_search:
  assumes "read_photo_gps env p = (Some (ts, elat, elon, ealt), ev1)"
      and "\<not> (truthy elat \<and> truthy elon)"
      and "fst (get_closest_gps_row env g ts) = (d, Some (timestamp, lat, lon, alt))"
      and "fromtimestamp env timestamp = Inr dt"
  shows "filter is_search (snd (write_photo_gps env g p)) = [Search lat lon]"
proof -
  have ev1: "filter is_search ev1 = []"
    using filter_read_events [OF assms(1)] by simp
  obtain a where a: "gps_to_address env lat lon = (a, [Search lat lon])"
    using gps_to_address_events [of env lat lon] by (cases "gps_to_address env lat lon") simp
  from assms ev1 a show ?thesis
    by (auto simp: write_photo_gps_def Let_def split: sum.splits option.splits)
qed

text \<open>
  C6 (as amended). For every photo whose timestamp was read, that does not already carry
  a position and for which a nearest row was found (and that row's timestamp converts to
  a date), the geocoder is called exactly once, with the row's latitude and longitude,
  before the threshold is tested, so also when the match is then rejected. For a rejected
  match (difference above 3600) the address is not printed and \<^verbatim>\<open>set_tags\<close> is not
  called.
\<close>

theorem write_photo_gps_geocodes_before_threshold:
  assumes "read_photo_gps env p = (Some (ts, elat, elon, ealt), ev1)"
      and "\<not> (truthy elat \<and> truthy elon)"
      and "fst (get_closest_gps_row env g ts) = (d, Some (timestamp, lat, lon, alt))"
      and "fromtimestamp env timestamp = Inr dt"
  shows "filter is_search (snd (write_photo_gps env g p)) = [Search lat lon] \<and>
         (py_gt d (Fin 3600) \<longrightarrow>
            filter is_address (snd (write_photo_gps env g p)) = [] \<and>
            filter is_set_tags (snd (write_photo_gps env g p)) = [])"
  using wpg_search [OF assms] wpg_rejected_no_write [OF assms(1) assms(3)] by simp

text \<open>
  The geocoder is called for the photo 900 seconds from the row; for the photo 3601
  seconds from it no address is printed and nothing is written.
\<close>

theorem write_photo_gps_geocodes_before_threshold_witness:
  "filter is_search
     (snd (write_photo_gps (demo_env [(''a.jpg'', photo_900)] [])
             \<lparr>GPS_TABLE = [row_a], OVERWRITE = False\<rparr> ''a.jpg'')) =
     [Search (Str ''35.0'') (Str ''139.0'')] \<and>
   py_gt (Fin 3601) (Fin 3600) \<and>
   filter is_address
     (snd (write_photo_gps (demo_env [(''a.jpg'', photo_3601)] [])
             \<lparr>GPS_TABLE = [row_a], OVERWRITE = False\<rparr> ''a.jpg'')) = [] \<and>
   filter is_set_tags
     (snd (write_photo_gps (demo_env [(''a.jpg'', photo_3601)] [])
             \<lparr>GPS_TABLE = [row_a], OVERWRITE = False\<rparr> ''a.jpg'')) = []"
proof -
  let ?g = "\<lparr>GPS_TABLE = [row_a], OVERWRITE = False\<rparr>"
  let ?e1 = "demo_env [(''a.jpg'', photo_900)] []"
  let ?e2 = "demo_env [(''a.jpg'', photo_3601)] []"
  have r1: "read_photo_gps ?e1 ''a.jpg'' =
      (Some (Fin 1700000900, Str [], Str [], Str []),
       [GetMetadata ''a.jpg'', Print (ReadOk ''a.jpg'' (Fin 1700000900) (Str []) (Str []))])"
    by (simp add: read_photo_gps_def demo_env_def photo_900_def demo_clock_def meta_get_def Let_def)
  have r2: "read_photo_gps ?e2 ''a.jpg'' =
      (Some (Fin 1700003601, Str [], Str [], Str []),
       [GetMetadata ''a.jpg'', Print (ReadOk ''a.jpg'' (Fin 1700003601) (Str []) (Str []))])"
    by (simp add: read_photo_gps_def demo_env_def photo_3601_def demo_clock_def meta_get_def Let_def)
  have ng: "\<not> (truthy (Str []) \<and> truthy (Str []))" by simp
  have n1: "fst (get_closest_gps_row ?e1 ?g (Fin 1700000900)) =
      (Fin 900, Some (Fin 1700000000, Str ''35.0'', Str ''139.0'', Str ''10''))"
    by (simp add: get_closest_gps_row_def demo_env_def row_a_def)
  have n2: "fst (get_closest_gps_row ?e2 ?g (Fin 1700003601)) =
      (Fin 3601, Some (Fin 1700000000, Str ''35.0'', Str ''139.0'', Str ''10''))"
    by (simp add: get_closest_gps_row_def demo_env_def row_a_def)
  have f1: "fromtimestamp ?e1 (Fin 1700000000) = Inr ''datetime''"
    by (simp add: demo_env_def)
  have f2: "fromtimestamp ?e2 (Fin 1700000000) = Inr ''datetime''"
    by (simp add: demo_env_def)
  have gt: "py_gt (Fin 3601) (Fin 3600)" by (simp add: py_gt_def)
  from write_photo_gps_geocodes_before_threshold [OF r1 ng n1 f1]
       write_photo_gps_geocodes_before_threshold [OF r2 ng n2 f2] gt
  show ?thesis by simp
qed

text \<open>
  C6 as stated fails: for the photo 3601 seconds from the only row the match is rejected,
  and the events of the run hold the geocoder call, made before the rejection.
\<close>

theorem write_photo_gps_geocodes_before_threshold_counterexample:
  "fst (get_closest_gps_row (demo_env [(''a.jpg'', photo_3601)] [])
          \<lparr>GPS_TABLE = [row_a], OVERWRITE = False\<rparr> (Fin 1700003601)) =
     (Fin 3601, Some row_a) \<and>
   py_gt (Fin 3601) (Fin 3600) \<and>
   write_photo_gps (demo_env [(''a.jpg'', photo_3601)] [])
     \<lparr>GPS_TABLE = [row_a], OVERWRITE = False\<rparr> ''a.jpg'' =
     (Inr (),
      [GetMetadata ''a.jpg'', Print (ReadOk ''a.jpg'' (Fin 1700003601) (Str []) (Str [])),
       Search (Str ''35.0'') (Str ''139.0''),
       Print (TimeDiffError ''a.jpg'' (Fin 3601) ''datetime'')])"
proof -
  let ?g = "\<lparr>GPS_TABLE = [row_a], OVERWRITE = False\<rparr>"
  let ?e = "demo_env [(''a.jpg'', photo_3601)] []"
  have r: "read_photo_gps ?e ''a.jpg'' =
      (Some (Fin 1700003601, Str [], Str [], Str []),
       [GetMetadata ''a.jpg'', Print (ReadOk ''a.jpg'' (Fin 1700003601) (Str []) (Str []))])"
    by (simp add: read_photo_gps_def demo_env_def photo_3601_def demo_clock_def meta_get_def Let_def)
  have n: "fst (get_closest_gps_row ?e ?g (Fin 1700003601)) =
      (Fin 3601, Some (Fin 1700000000, Str ''35.0'', Str ''139.0'', Str ''10''))"
    by (simp add: get_closest_gps_row_def demo_env_def row_a_def)
  have "write_photo_gps ?e ?g ''a.jpg'' =
      (Inr (),
       [GetMetadata ''a.jpg'', Print (ReadOk ''a.jpg'' (Fin 1700003601) (Str []) (Str []))] @
       [Search (Str ''35.0'') (Str ''139.0''),
        Print (TimeDiffError ''a.jpg'' (Fin 3601) ''datetime'')])"
    by (rule wpg_rejected [OF r _ n, where others = "[]"
          and res = "\<lparr>cc = ''JP'', name = ''Tokyo'', admin1 = ''Tokyo''\<rparr>"])
       (simp_all add: demo_env_def py_gt_def)
  then show ?thesis by (simp add: get_closest_gps_row_def demo_env_def row_a_def py_gt_def)
qed

subsection \<open>Hemisphere references\<close>

text \<open>
  C9. Every call of \<^verbatim>\<open>set_tags\<close> that \<^verbatim>\<open>write_photo_gps\<close> makes passes a row of the table
  with the latitude reference \<^verbatim>\<open>N\<close> if \<^verbatim>\<open>float(lat) > 0\<close> and \<^verbatim>\<open>S\<close> otherwise, and the
  longitude reference \<^verbatim>\<open>E\<close> if \<^verbatim>\<open>float(lon) > 0\<close> and \<^verbatim>\<open>W\<close> otherwise; the comparison of
  a finite float with zero is the strict comparison of the numbers, so \<open>0.0\<close> gives
  \<^verbatim>\<open>S\<close> and \<^verbatim>\<open>W\<close>.
\<close>

theorem write_photo_gps_hemisphere:
  "(SetTags p' t ps \<in> set (snd (write_photo_gps env g p)) \<longrightarrow>
      (\<exists>ts lat lon alt flat flon.
         (ts, lat, lon, alt) \<in> set (GPS_TABLE g) \<and>
         float_of env lat = Inr flat \<and> float_of env lon = Inr flon \<and>
         t = [(''EXIF:GPSLatitude'', lat), (''EXIF:GPSLongitude'', lon),
              (''EXIF:GPSAltitude'', alt),
              (''EXIF:GPSLatitudeRef'', Str (if py_gt flat (Fin 0) then ''N'' else ''S'')),
              (''EXIF:GPSLongitudeRef'', Str (if py_gt flon (Fin 0) then ''E'' else ''W''))])) \<and>
   (py_gt (Fin x) (Fin 0) \<longleftrightarrow> 0 < x)"
  using wpg_set_tags [of p' t ps env g p] by (auto simp: gps_tags_def py_gt_def)

text \<open>A row at latitude \<^verbatim>\<open>0.0\<close> and longitude \<^verbatim>\<open>0.0\<close> is written with \<^verbatim>\<open>S\<close> and \<^verbatim>\<open>W\<close>.\<close>

theorem write_photo_gps_hemisphere_witness:
  "SetTags ''a.jpg''
     [(''EXIF:GPSLatitude'', Str ''0.0''), (''EXIF:GPSLongitude'', Str ''0.0''),
      (''EXIF:GPSAltitude'', Str ''0''), (''EXIF:GPSLatitudeRef'', Str ''S''),
      (''EXIF:GPSLongitudeRef'', Str ''W'')]
     [''-P'', []]
   \<in> set (snd (write_photo_gps (demo_env [(''a.jpg'', photo_900)] [])
                  \<lparr>GPS_TABLE = [row_zero], OVERWRITE = False\<rparr> ''a.jpg'')) \<and>
   float_of (demo_env [(''a.jpg'', photo_900)] []) (Str ''0.0'') = Inr (Fin 0) \<and>
   \<not> py_gt (Fin 0) (Fin 0)"
proof -
  let ?g = "\<lparr>GPS_TABLE = [row_zero], OVERWRITE = False\<rparr>"
  let ?e = "demo_env [(''a.jpg'', photo_900)] []"
  let ?res = "\<lparr>cc = ''JP'', name = ''Tokyo'', admin1 = ''Tokyo''\<rparr>"
  let ?t = "[(''EXIF:GPSLatitude'', Str ''0.0''), (''EXIF:GPSLongitude'', Str ''0.0''),
      (''EXIF:GPSAltitude'', Str ''0''), (''EXIF:GPSLatitudeRef'', Str ''S''),
      (''EXIF:GPSLongitudeRef'', Str ''W'')]"
  have r: "read_photo_gps ?e ''a.jpg'' =
      (Some (Fin 1700000900, Str [], Str [], Str []),
       [GetMetadata ''a.jpg'', Print (ReadOk ''a.jpg'' (Fin 1700000900) (Str []) (Str []))])"
    by (simp add: read_photo_gps_def demo_env_def photo_900_def demo_clock_def meta_get_def Let_def)
  have n: "fst (get_closest_gps_row ?e ?g (Fin 1700000900)) =
      (Fin 900, Some (Fin 1700000000, Str ''0.0'', Str ''0.0'', Str ''0''))"
    by (simp add: get_closest_gps_row_def demo_env_def row_zero_def)
  have "snd (write_photo_gps ?e ?g ''a.jpg'') =
      [GetMetadata ''a.jpg'', Print (ReadOk ''a.jpg'' (Fin 1700000900) (Str []) (Str []))] @
      [Search (Str ''0.0'') (Str ''0.0''),
       Print (Matched ''a.jpg'' ''datetime'' (Str ''0.0'') (Str ''0.0'')),
       Print (Address ''a.jpg'' (cc ?res @ '', '' @ name ?res @ '', '' @ admin1 ?res @ '', '' @ cc ?res)),
       SetTags ''a.jpg'' (gps_tags (Str ''0.0'') (Str ''0.0'') (Str ''0'') (Fin 0) (Fin 0))
         (tool_params ?g)] @
      (case set_tags ?e ''a.jpg''
              (gps_tags (Str ''0.0'') (Str ''0.0'') (Str ''0'') (Fin 0) (Fin 0))
              (tool_params ?g) of
         Some e \<Rightarrow> [] | None \<Rightarrow> [Print (Done ''a.jpg'')])"
    by (rule wpg_accepted [OF r _ n, where others = "[]"])
       (simp_all add: demo_env_def py_gt_def float_literal_examples)
  then have mem: "SetTags ''a.jpg'' ?t [''-P'', []] \<in> set (snd (write_photo_gps ?e ?g ''a.jpg''))"
    by (simp add: gps_tags_def tool_params_def py_gt_def)
  have fl: "float_of ?e (Str ''0.0'') = Inr (Fin 0)"
    by (simp add: demo_env_def float_literal_examples)
  from write_photo_gps_hemisphere [of "''a.jpg''" ?t "[''-P'', []]" ?e ?g "''a.jpg''" 0] mem fl
  show ?thesis by simp
qed

subsection \<open>The table as a set\<close>

text \<open>
  \<^verbatim>\<open>set(...)\<close> keeps every row that occurs, leaves no two rows that are equal in Python's
  sense, and changes nothing when applied a second time.
\<close>

lemma row_eq_imp_eq: "row_eq r r' \<Longrightarrow> r = r'"
  by (cases r; cases r') (simp add: py_float_eq_def)

lemma row_eq_refl: "fst r \<noteq> NaN \<Longrightarrow> row_eq r r"
  by (cases r) (simp add: py_float_eq_def)

lemma set_set_insert: "set (set_insert acc r) = insert r (set acc)"
  by (auto simp: set_insert_def list_ex_iff dest: row_eq_imp_eq)

lemma set_foldl_set_insert: "set (foldl set_insert acc xs) = set acc \<union> set xs"
  by (induction xs arbitrary: acc) (auto simp: set_set_insert)

lemma set_py_set: "set (py_set xs) = set xs"
  by (simp add: py_set_def set_foldl_set_insert)

lemma distinct_set_insert:
  "distinct acc \<Longrightarrow> fst r \<noteq> NaN \<Longrightarrow> distinct (set_insert acc r)"
  by (auto simp: set_insert_def list_ex_iff dest: row_eq_refl)

lemma distinct_foldl_set_insert:
  "distinct acc \<Longrightarrow> list_all (\<lambda>r. fst r \<noteq> NaN) xs \<Longrightarrow> distinct (foldl set_insert acc xs)"
  by (induction xs arbitrary: acc) (auto simp: distinct_set_insert)

lemma distinct_py_set: "list_all (\<lambda>r. fst r \<noteq> NaN) xs \<Longrightarrow> distinct (py_set xs)"
  by (simp add: py_set_def distinct_foldl_set_insert)

lemma row_eq_sym: "row_eq r r' \<Longrightarrow> row_eq r' r"
  by (cases r; cases r') (auto simp: py_float_eq_def)

lemma no_duplicates_snoc:
  "no_duplicates (acc @ [r]) \<longleftrightarrow> no_duplicates acc \<and> \<not> list_ex (\<lambda>r'. row_eq r' r) acc"
  by (induction acc) (auto simp: list_ex_iff dest: row_eq_sym)

lemma no_duplicates_foldl:
  "no_duplicates acc \<Longrightarrow> no_duplicates (foldl set_insert acc xs)"
  by (induction xs arbitrary: acc) (auto simp: set_insert_def no_duplicates_snoc)

lemma no_duplicates_py_set: "no_duplicates (py_set xs)"
  by (simp add: py_set_def no_duplicates_foldl)

lemma no_duplicates_append:
  "no_duplicates (xs @ ys) \<Longrightarrow> x \<in> set xs \<Longrightarrow> y \<in> set ys \<Longrightarrow> \<not> row_eq x y"
  by (induction xs) (auto simp: list_ex_iff)

lemma foldl_set_insert_id:
  "no_duplicates (acc @ ys) \<Longrightarrow> foldl set_insert acc ys = acc @ ys"
proof (induction ys arbitrary: acc)
  case Nil
  then show ?case by simp
next
  case (Cons y ys)
  have "\<not> list_ex (\<lambda>r'. row_eq r' y) acc"
    using no_duplicates_append [OF Cons.prems, of _ y] by (auto simp: list_ex_iff)
  then have "set_insert acc y = acc @ [y]" by (simp add: set_insert_def)
  moreover have "no_duplicates ((acc @ [y]) @ ys)" using Cons.prems by simp
  ultimately show ?case using Cons.IH [of "acc @ [y]"] by simp
qed

lemma py_set_idem: "py_set (py_set xs) = py_set xs"
  using foldl_set_insert_id [of "[]" "py_set xs"] no_duplicates_py_set [of xs]
  by (simp add: py_set_def)

lemma written_rows_write_rows:
  "written_rows (write_rows env p t) = filter (\<lambda>r. writerow env r = None) t"
  by (induction t) (auto split: option.splits)

text \<open>
  C8 (as amended). Load a CSV file into the empty table and save at once, with a reader
  that yields all its rows, a file that opens and a writer that does not fail. If no loaded timestamp is NaN, the rows written
  are exactly the rows of the table, each loaded sample is written exactly once (the rows
  written are pairwise different and are, as a set, the loaded samples), and saving
  leaves the table as loading made it. Rows that do not load (fewer than four cells, a
  first cell that \<^verbatim>\<open>float\<close> rejects) are not written at all.
\<close>

theorem load_then_persist:
  assumes "csv_reader env path = Inr (rows, None)"
      and "open_append env out = None"
      and "\<forall>r. writerow env r = None"
      and "list_all (\<lambda>r. fst r \<noteq> NaN) (fst (load_rows env [] rows))"
  shows "\<exists>g1 ev g2 ev'.
           load_gps_csv env initial path = ((None, g1), ev) \<and>
           write_gps_csv env g1 out = ((None, g2), ev') \<and>
           GPS_TABLE g2 = GPS_TABLE g1 \<and>
           written_rows ev' = GPS_TABLE g1 \<and>
           distinct (written_rows ev') \<and>
           set (written_rows ev') = set (fst (load_rows env [] rows))"
proof -
  obtain t ev where l: "load_rows env [] rows = (t, ev)" by (cases "load_rows env [] rows")
  let ?g1 = "initial\<lparr>GPS_TABLE := py_set t\<rparr>"
  have load: "load_gps_csv env initial path = ((None, ?g1), ev)"
    using assms(1) l by (simp add: load_gps_csv_def initial_def)
  have save: "write_gps_csv env ?g1 out = ((None, ?g1), write_rows env out (py_set t))"
    using assms(2) by (simp add: write_gps_csv_def Let_def py_set_idem)
  have w: "written_rows (write_rows env out (py_set t)) = py_set t"
  proof -
    have "\<And>r. writerow env r = None" using assms(3) by blast
    then show ?thesis by (simp add: written_rows_write_rows)
  qed
  have d: "distinct (py_set t)" using assms(4) l by (simp add: distinct_py_set)
  from load save w d l show ?thesis by (simp add: set_py_set)
qed


text \<open>A header and the same row twice: one row is written.\<close>

theorem load_then_persist_witness:
  "written_rows
     (snd (write_gps_csv
             (demo_env []
                [(''gps.csv'',
                  [[''timestamp'', ''lat'', ''lon'', ''alt''],
                   [''1700000000'', ''35.0'', ''139.0'', ''10''],
                   [''1700000000'', ''35.0'', ''139.0'', ''10'']])])
             \<lparr>GPS_TABLE = [row_a], OVERWRITE = False\<rparr> ''out.csv'')) = [row_a] \<and>
   fst (load_gps_csv
          (demo_env []
             [(''gps.csv'',
               [[''timestamp'', ''lat'', ''lon'', ''alt''],
                [''1700000000'', ''35.0'', ''139.0'', ''10''],
                [''1700000000'', ''35.0'', ''139.0'', ''10'']])])
          initial ''gps.csv'') = (None, \<lparr>GPS_TABLE = [row_a], OVERWRITE = False\<rparr>)"
proof -
  let ?rows = "[[''timestamp'', ''lat'', ''lon'', ''alt''],
                [''1700000000'', ''35.0'', ''139.0'', ''10''],
                [''1700000000'', ''35.0'', ''139.0'', ''10'']]"
  let ?e = "demo_env [] [(''gps.csv'', ?rows)]"
  have fl: "float_literal ''timestamp'' = None"
    by (simp add: float_literal_def unsigned_literal_def digit_of_def)
  have l: "load_rows ?e [] ?rows = ([row_a, row_a], [Print (LoadError ValueError)])"
    by (simp add: load_row_def demo_env_def float_literal_examples fl row_a_def)
  have ps: "py_set [row_a, row_a] = [row_a]"
    by (simp add: py_set_def set_insert_def row_a_def py_float_eq_def)
  have h1: "csv_reader ?e ''gps.csv'' = Inr (?rows, None)" by (simp add: demo_env_def)
  have h2: "open_append ?e ''out.csv'' = None" by (simp add: demo_env_def)
  have h3: "\<forall>r. writerow ?e r = None" by (simp add: demo_env_def)
  have h4: "list_all (\<lambda>r. fst r \<noteq> NaN) (fst (load_rows ?e [] ?rows))"
    unfolding l by (simp add: row_a_def)
  have load: "load_gps_csv ?e initial ''gps.csv'' =
      ((None, \<lparr>GPS_TABLE = [row_a], OVERWRITE = False\<rparr>), [Print (LoadError ValueError)])"
    using h1 l ps by (simp add: load_gps_csv_def initial_def)
  from load_then_persist [OF h1 h2 h3 h4] load show ?thesis by auto
qed

text \<open>
  C8 as stated fails: two identical rows whose first cell is \<^verbatim>\<open>nan\<close> both load, a NaN is
  equal to nothing, so \<^verbatim>\<open>set\<close> keeps both and both are written.
\<close>

theorem load_then_persist_counterexample:
  "fst (load_gps_csv
          (demo_env [] [(''gps.csv'', [[''nan'', ''1'', ''2'', ''3''], [''nan'', ''1'', ''2'', ''3'']])])
          initial ''gps.csv'') =
     (None,
      \<lparr>GPS_TABLE = [(NaN, Str ''1'', Str ''2'', Str ''3''), (NaN, Str ''1'', Str ''2'', Str ''3'')],
         OVERWRITE = False\<rparr>) \<and>
   written_rows
     (snd (write_gps_csv
             (demo_env [] [(''gps.csv'', [[''nan'', ''1'', ''2'', ''3''], [''nan'', ''1'', ''2'', ''3'']])])
             \<lparr>GPS_TABLE = [(NaN, Str ''1'', Str ''2'', Str ''3''), (NaN, Str ''1'', Str ''2'', Str ''3'')],
                OVERWRITE = False\<rparr> ''out.csv'')) =
     [(NaN, Str ''1'', Str ''2'', Str ''3''), (NaN, Str ''1'', Str ''2'', Str ''3'')]"
  by (simp add: load_gps_csv_def write_gps_csv_def load_row_def demo_env_def initial_def
        float_literal_examples py_set_def set_insert_def py_float_eq_def Let_def)

subsection \<open>Harvesting\<close>

text \<open>
  What the read worker makes of the table: it appends, in the order of the queue, the
  sample of every photo that was read with a timestamp, a latitude and a longitude that
  are all true, and nothing else. Every row it appends has a finite timestamp.
\<close>

lemma read_worker_single:
  "read_photo_gps env p = (r, ev) \<Longrightarrow>
   read_worker env g (p # queue) =
     (fst (read_worker env (read_append g r) queue),
      ev @ [TaskDone] @ snd (read_worker env (read_append g r) queue))"
  by (simp split: prod.splits)

lemma read_worker_mem:
  "r \<in> set (GPS_TABLE (fst (read_worker env g queue))) \<longleftrightarrow>
   r \<in> set (GPS_TABLE g) \<or>
   (\<exists>p\<in>set queue. fst (read_photo_gps env p) = Some r \<and>
      float_truthy (fst r) \<and> truthy (fst (snd r)) \<and> truthy (fst (snd (snd r))))"
proof (induction queue arbitrary: g)
  case Nil
  then show ?case by simp
next
  case (Cons p queue)
  obtain x ev where x: "read_photo_gps env p = (x, ev)" by (cases "read_photo_gps env p")
  have w: "fst (read_worker env g (p # queue)) = fst (read_worker env (read_append g x) queue)"
    using read_worker_single [OF x] by simp
  have a: "r \<in> set (GPS_TABLE (read_append g x)) \<longleftrightarrow>
      r \<in> set (GPS_TABLE g) \<or>
      (x = Some r \<and> float_truthy (fst r) \<and> truthy (fst (snd r)) \<and> truthy (fst (snd (snd r))))"
    by (auto simp: read_append_def split: option.splits)
  show ?case unfolding w Cons.IH [of "read_append g x"] a using x by auto
qed

lemma read_worker_finite:
  assumes "r \<in> set (GPS_TABLE (fst (read_worker env initial queue)))"
  shows "fst r \<noteq> NaN"
proof -
  from assms obtain p where "fst (read_photo_gps env p) = Some r"
    unfolding read_worker_mem by (auto simp: initial_def)
  then obtain ev where "read_photo_gps env p = (Some (fst r, snd r), ev)"
    by (cases "read_photo_gps env p") simp
  then have "read_photo_gps env p = (Some (fst r, fst (snd r), fst (snd (snd r)), snd (snd (snd r))), ev)"
    by simp
  from read_photo_gps_Fin [OF this] show ?thesis by auto
qed

lemma saved_table:
  "GPS_TABLE (snd (fst (write_gps_csv env g path))) = py_set (GPS_TABLE g)"
  by (simp add: write_gps_csv_def Let_def split: option.splits)

text \<open>
  C7. In a harvest the workers start from the empty table. The list that the read worker
  leaves holds a sample if and only if some photo of the queue was read as that sample,
  complete; a sample read from two photos is in the list twice. At persist time
  \<^verbatim>\<open>write_gps_csv\<close> turns the list into a set: the table then holds exactly the samples of
  the list (none is dropped, none is added), no sample twice and no two rows that are
  equal as full tuples, and with a file that opens and a writer that does not fail, the
  rows written are the rows of that table. So one photo's complete sample gives exactly
  one entry, the identical sample from a second photo still gives exactly one entry, and
  two samples that differ in any field give two entries.
\<close>

theorem harvest_set_semantics:
  "(r \<in> set (GPS_TABLE (fst (read_worker env initial queue))) \<longleftrightarrow>
      (\<exists>p\<in>set queue. fst (read_photo_gps env p) = Some r \<and>
         float_truthy (fst r) \<and> truthy (fst (snd r)) \<and> truthy (fst (snd (snd r))))) \<and>
   set (GPS_TABLE (snd (fst (write_gps_csv env (fst (read_worker env initial queue)) path)))) =
     set (GPS_TABLE (fst (read_worker env initial queue))) \<and>
   distinct (GPS_TABLE (snd (fst (write_gps_csv env (fst (read_worker env initial queue)) path)))) \<and>
   no_duplicates
     (GPS_TABLE (snd (fst (write_gps_csv env (fst (read_worker env initial queue)) path)))) \<and>
   (open_append env path = None \<and> (\<forall>x. writerow env x = None) \<longrightarrow>
      written_rows (snd (write_gps_csv env (fst (read_worker env initial queue)) path)) =
        GPS_TABLE (snd (fst (write_gps_csv env (fst (read_worker env initial queue)) path)))) \<and>
   (fst (read_photo_gps env p1) = Some s \<and> fst (read_photo_gps env p2) = Some s \<and>
    float_truthy (fst s) \<and> truthy (fst (snd s)) \<and> truthy (fst (snd (snd s))) \<longrightarrow>
      GPS_TABLE (snd (fst (write_gps_csv env (fst (read_worker env initial [p1])) path))) = [s] \<and>
      GPS_TABLE (fst (read_worker env initial [p1, p2])) = [s, s] \<and>
      GPS_TABLE (snd (fst (write_gps_csv env (fst (read_worker env initial [p1, p2])) path))) =
        [s]) \<and>
   (fst (read_photo_gps env p1) = Some s \<and> fst (read_photo_gps env p2) = Some s' \<and> s \<noteq> s' \<and>
    float_truthy (fst s) \<and> truthy (fst (snd s)) \<and> truthy (fst (snd (snd s))) \<and>
    float_truthy (fst s') \<and> truthy (fst (snd s')) \<and> truthy (fst (snd (snd s'))) \<longrightarrow>
      set (GPS_TABLE (snd (fst (write_gps_csv env (fst (read_worker env initial [p1, p2])) path)))) =
        {s, s'} \<and>
      length (GPS_TABLE (snd (fst (write_gps_csv env (fst (read_worker env initial [p1, p2])) path)))) =
        2)"
proof -
  let ?listed = "GPS_TABLE (fst (read_worker env initial queue))"
  have mem: "r \<in> set ?listed \<longleftrightarrow>
      (\<exists>p\<in>set queue. fst (read_photo_gps env p) = Some r \<and>
         float_truthy (fst r) \<and> truthy (fst (snd r)) \<and> truthy (fst (snd (snd r))))"
    unfolding read_worker_mem by (simp add: initial_def)
  have fin: "list_all (\<lambda>r. fst r \<noteq> NaN) ?listed"
    unfolding list_all_iff using read_worker_finite by blast
  have c2: "set (py_set ?listed) = set ?listed" by (rule set_py_set)
  have c3: "distinct (py_set ?listed)" using fin by (rule distinct_py_set)
  have c4: "no_duplicates (py_set ?listed)" by (rule no_duplicates_py_set)
  have c5: "open_append env path = None \<and> (\<forall>x. writerow env x = None) \<longrightarrow>
      written_rows (snd (write_gps_csv env (fst (read_worker env initial queue)) path)) =
        py_set ?listed"
  proof
    assume a: "open_append env path = None \<and> (\<forall>x. writerow env x = None)"
    then have "\<And>x. writerow env x = None" by blast
    with a show "written_rows (snd (write_gps_csv env (fst (read_worker env initial queue)) path)) =
        py_set ?listed"
      by (simp add: write_gps_csv_def Let_def written_rows_write_rows)
  qed
  have one: "GPS_TABLE (fst (read_worker env initial [p])) = [x]"
    if "fst (read_photo_gps env p) = Some x"
      and "float_truthy (fst x) \<and> truthy (fst (snd x)) \<and> truthy (fst (snd (snd x)))"
    for p x
  proof -
    from that(1) obtain ev where "read_photo_gps env p = (Some x, ev)"
      by (cases "read_photo_gps env p") simp
    from read_worker_single [OF this, of initial "[]"] that(2) show ?thesis
      by (simp add: read_append_def initial_def)
  qed
  have two: "GPS_TABLE (fst (read_worker env initial [p, q])) = [x, y]"
    if "fst (read_photo_gps env p) = Some x" and "fst (read_photo_gps env q) = Some y"
      and "float_truthy (fst x) \<and> truthy (fst (snd x)) \<and> truthy (fst (snd (snd x)))"
      and "float_truthy (fst y) \<and> truthy (fst (snd y)) \<and> truthy (fst (snd (snd y)))"
    for p q x y
  proof -
    from that(1) obtain ev where p: "read_photo_gps env p = (Some x, ev)"
      by (cases "read_photo_gps env p") simp
    from that(2) obtain ev' where q: "read_photo_gps env q = (Some y, ev')"
      by (cases "read_photo_gps env q") simp
    from read_worker_single [OF p, of initial "[q]"]
         read_worker_single [OF q, of "read_append initial (Some x)" "[]"] that(3) that(4)
    show ?thesis by (simp add: read_append_def initial_def)
  qed
  have fin1: "fst x \<noteq> NaN" if "fst (read_photo_gps env p) = Some x" for p x
  proof -
    from that obtain ev where
      "read_photo_gps env p = (Some (fst x, fst (snd x), fst (snd (snd x)), snd (snd (snd x))), ev)"
      by (cases "read_photo_gps env p") simp
    from read_photo_gps_Fin [OF this] show ?thesis by auto
  qed
  have c6: "GPS_TABLE (snd (fst (write_gps_csv env (fst (read_worker env initial [p1])) path))) = [s] \<and>
      GPS_TABLE (fst (read_worker env initial [p1, p2])) = [s, s] \<and>
      GPS_TABLE (snd (fst (write_gps_csv env (fst (read_worker env initial [p1, p2])) path))) = [s]"
    if a: "fst (read_photo_gps env p1) = Some s \<and> fst (read_photo_gps env p2) = Some s \<and>
      float_truthy (fst s) \<and> truthy (fst (snd s)) \<and> truthy (fst (snd (snd s)))"
  proof -
    from a have l1: "GPS_TABLE (fst (read_worker env initial [p1])) = [s]" by (intro one) auto
    from a have l2: "GPS_TABLE (fst (read_worker env initial [p1, p2])) = [s, s]"
      by (intro two) auto
    from a have "row_eq s s" by (intro row_eq_refl fin1 [of p1]) simp
    then have "py_set [s] = [s]" "py_set [s, s] = [s]"
      by (simp_all add: py_set_def set_insert_def)
    with l1 l2 show ?thesis unfolding saved_table by simp
  qed
  have c7: "set (GPS_TABLE (snd (fst (write_gps_csv env (fst (read_worker env initial [p1, p2])) path)))) =
        {s, s'} \<and>
      length (GPS_TABLE (snd (fst (write_gps_csv env (fst (read_worker env initial [p1, p2])) path)))) = 2"
    if a: "fst (read_photo_gps env p1) = Some s \<and> fst (read_photo_gps env p2) = Some s' \<and> s \<noteq> s' \<and>
      float_truthy (fst s) \<and> truthy (fst (snd s)) \<and> truthy (fst (snd (snd s))) \<and>
      float_truthy (fst s') \<and> truthy (fst (snd s')) \<and> truthy (fst (snd (snd s')))"
  proof -
    from a have l2: "GPS_TABLE (fst (read_worker env initial [p1, p2])) = [s, s']"
      by (intro two) auto
    from a have "\<not> row_eq s s'" by (auto dest: row_eq_imp_eq)
    then have "py_set [s, s'] = [s, s']" by (simp add: py_set_def set_insert_def)
    with l2 show ?thesis unfolding saved_table by auto
  qed
  from mem c2 c3 c4 c5 c6 c7 show ?thesis unfolding saved_table by blast
qed

text \<open>
  A whole harvest run over a directory of three photos: two with the same sample and one
  that differs from them in the altitude only. Two rows are kept and written.
\<close>

theorem harvest_set_semantics_witness:
  "fst (main (demo_env [(''photos/a.jpg'', photo_tokyo), (''photos/b.jpg'', photo_tokyo),
                        (''photos/c.jpg'', photo_tokyo_high)] [])
          initial ''photos'' ''gps.csv'' False 4) =
     (Returned,
      \<lparr>GPS_TABLE = [(Fin 1700000000, Num 35, Num 139, Num 10),
                    (Fin 1700000000, Num 35, Num 139, Num 20)],
         OVERWRITE = False\<rparr>) \<and>
   written_rows
     (snd (main (demo_env [(''photos/a.jpg'', photo_tokyo), (''photos/b.jpg'', photo_tokyo),
                           (''photos/c.jpg'', photo_tokyo_high)] [])
             initial ''photos'' ''gps.csv'' False 4)) =
     [(Fin 1700000000, Num 35, Num 139, Num 10), (Fin 1700000000, Num 35, Num 139, Num 20)] \<and>
   GPS_TABLE
     (fst (read_worker (demo_env [(''photos/a.jpg'', photo_tokyo), (''photos/b.jpg'', photo_tokyo),
                                  (''photos/c.jpg'', photo_tokyo_high)] [])
             initial [''photos/a.jpg'', ''photos/b.jpg''])) =
     [(Fin 1700000000, Num 35, Num 139, Num 10), (Fin 1700000000, Num 35, Num 139, Num 10)] \<and>
   GPS_TABLE
     (snd (fst (write_gps_csv
                  (demo_env [(''photos/a.jpg'', photo_tokyo), (''photos/b.jpg'', photo_tokyo),
                             (''photos/c.jpg'', photo_tokyo_high)] [])
                  (fst (read_worker
                          (demo_env [(''photos/a.jpg'', photo_tokyo), (''photos/b.jpg'', photo_tokyo),
                                     (''photos/c.jpg'', photo_tokyo_high)] [])
                          initial [''photos/a.jpg'', ''photos/b.jpg'']))
                  ''gps.csv''))) =
     [(Fin 1700000000, Num 35, Num 139, Num 10)]"
proof -
  let ?e = "demo_env [(''photos/a.jpg'', photo_tokyo), (''photos/b.jpg'', photo_tokyo),
                      (''photos/c.jpg'', photo_tokyo_high)] []"
  let ?s = "(Fin 1700000000, Num 35, Num 139, Num 10)"
  let ?h = "(Fin 1700000000, Num 35, Num 139, Num 20)"
  let ?ev = "[GetMetadata ''photos/a.jpg'',
        Print (ReadOk ''photos/a.jpg'' (Fin 1700000000) (Num 35) (Num 139)), TaskDone,
        GetMetadata ''photos/b.jpg'',
        Print (ReadOk ''photos/b.jpg'' (Fin 1700000000) (Num 35) (Num 139)), TaskDone,
        GetMetadata ''photos/c.jpg'',
        Print (ReadOk ''photos/c.jpg'' (Fin 1700000000) (Num 35) (Num 139)), TaskDone]"
  have r1: "read_photo_gps ?e ''photos/a.jpg'' =
      (Some ?s, [GetMetadata ''photos/a.jpg'',
                 Print (ReadOk ''photos/a.jpg'' (Fin 1700000000) (Num 35) (Num 139))])"
    by (simp add: read_photo_gps_def demo_env_def photo_tokyo_def demo_clock_def meta_get_def Let_def)
  have r2: "read_photo_gps ?e ''photos/b.jpg'' =
      (Some ?s, [GetMetadata ''photos/b.jpg'',
                 Print (ReadOk ''photos/b.jpg'' (Fin 1700000000) (Num 35) (Num 139))])"
    by (simp add: read_photo_gps_def demo_env_def photo_tokyo_def demo_clock_def meta_get_def Let_def)
  have r3: "read_photo_gps ?e ''photos/c.jpg'' =
      (Some ?h, [GetMetadata ''photos/c.jpg'',
                 Print (ReadOk ''photos/c.jpg'' (Fin 1700000000) (Num 35) (Num 139))])"
    by (simp add: read_photo_gps_def demo_env_def photo_tokyo_high_def demo_clock_def meta_get_def
          Let_def)
  have q: "loop_file ?e [] ''photos'' = ([''photos/a.jpg'', ''photos/b.jpg'', ''photos/c.jpg''], [])"
    by (simp add: loop_file_def process_file_def demo_env_def EXT_def lower_def lower_char_def
          suffix_to_prefix sublist_code)
  have io: "open_append ?e ''gps.csv'' = None" "\<forall>x. writerow ?e x = None"
    by (simp_all add: demo_env_def)
  have ok: "float_truthy (fst ?s) \<and> truthy (fst (snd ?s)) \<and> truthy (fst (snd (snd ?s)))"
    by (simp add: float_truthy_def)
  have pair: "GPS_TABLE (fst (read_worker ?e initial [''photos/a.jpg'', ''photos/b.jpg''])) = [?s, ?s] \<and>
      GPS_TABLE (snd (fst (write_gps_csv ?e
        (fst (read_worker ?e initial [''photos/a.jpg'', ''photos/b.jpg''])) ''gps.csv''))) = [?s]"
    using harvest_set_semantics [of _ ?e "[]" "''gps.csv''" "''photos/a.jpg''" ?s "''photos/b.jpg''"]
      r1 r2 ok
    by (simp del: read_worker.simps)
  have w: "read_worker ?e initial [''photos/a.jpg'', ''photos/b.jpg'', ''photos/c.jpg''] =
      (initial\<lparr>GPS_TABLE := [?s, ?s, ?h]\<rparr>, ?ev)"
    using r1 r2 r3 by (simp add: read_append_def float_truthy_def initial_def)
  have n4: "(4::nat) = Suc (Suc (Suc (Suc 0)))" by simp
  have sfx: "\<not> suffix ''.csv'' (lower ''photos'')" "suffix ''.csv'' (lower ''gps.csv'')"
    by (simp_all add: lower_def lower_char_def suffix_to_prefix)
  have ps: "py_set [?s, ?s, ?h] = [?s, ?h]"
    by (simp add: py_set_def set_insert_def py_float_eq_def)
  have rw: "read_workers ?e initial 4 [''photos/a.jpg'', ''photos/b.jpg'', ''photos/c.jpg''] =
      ((initial\<lparr>GPS_TABLE := [?s, ?s, ?h]\<rparr>, []), ?ev)"
    unfolding n4 read_workers.simps w by simp
  have wg: "write_gps_csv ?e (initial\<lparr>GPS_TABLE := [?s, ?s, ?h]\<rparr>) ''gps.csv'' =
      ((None, \<lparr>GPS_TABLE = [?s, ?h], OVERWRITE = False\<rparr>),
       [WriteRow ''gps.csv'' ?s, WriteRow ''gps.csv'' ?h])"
    using io ps by (simp add: write_gps_csv_def Let_def initial_def)
  show ?thesis
    using pair
    by (simp add: main_def Let_def q rw wg sfx del: read_worker.simps read_workers.simps)
qed

subsection \<open>A photo dated at the epoch\<close>

lemma read_append_rows:
  "set (GPS_TABLE (read_append g r)) \<subseteq> set (GPS_TABLE g) \<union> {x. fst x \<noteq> Fin 0}"
  by (auto simp: read_append_def float_truthy_def split: option.splits)

lemma read_worker_rows:
  "set (GPS_TABLE (fst (read_worker env g queue))) \<subseteq> set (GPS_TABLE g) \<union> {x. fst x \<noteq> Fin 0}"
proof (induction queue arbitrary: g)
  case Nil
  then show ?case by simp
next
  case (Cons p queue)
  obtain r ev where r: "read_photo_gps env p = (r, ev)" by (cases "read_photo_gps env p")
  have "fst (read_worker env g (p # queue)) = fst (read_worker env (read_append g r) queue)"
    using read_worker_single [OF r] by simp
  with Cons.IH [of "read_append g r"] read_append_rows [of g r] show ?case by auto
qed

text \<open>
  C10. A photo whose \<^verbatim>\<open>DateTimeOriginal\<close> converts to the timestamp \<open>0.0\<close> is read with
  that timestamp and with whatever latitude and longitude it has, and the read worker
  goes on as if the photo had not been in the queue: its sample is not appended, because
  \<^verbatim>\<open>exif_row[0]\<close> is tested for truth and \<open>0.0\<close> is false. No run of the read worker
  adds a row with timestamp \<open>0.0\<close> to the table.
\<close>

theorem read_worker_skips_epoch:
  assumes "get_metadata env p = Inr (m # ms)"
      and "m ''EXIF:DateTimeOriginal'' = Some v"
      and "strptime_timestamp env v = Inr 0"
  shows "fst (read_photo_gps env p) =
           Some (Fin 0, meta_get m ''EXIF:GPSLatitude'', meta_get m ''EXIF:GPSLongitude'',
                 meta_get m ''EXIF:GPSAltitude'') \<and>
         fst (read_worker env g (p # queue)) = fst (read_worker env g queue) \<and>
         Fin 0 \<notin> fst ` (set (GPS_TABLE (fst (read_worker env g queue'))) - set (GPS_TABLE g))"
proof -
  let ?r = "Some (Fin 0, meta_get m ''EXIF:GPSLatitude'', meta_get m ''EXIF:GPSLongitude'',
                 meta_get m ''EXIF:GPSAltitude'')"
  have r: "fst (read_photo_gps env p) = ?r"
    using assms by (simp add: read_photo_gps_def Let_def)
  then obtain ev where "read_photo_gps env p = (?r, ev)"
    by (cases "read_photo_gps env p") simp
  from read_worker_single [OF this, of g queue]
  have "fst (read_worker env g (p # queue)) = fst (read_worker env g queue)"
    by (simp add: read_append_def float_truthy_def)
  moreover have "Fin 0 \<notin> fst ` (set (GPS_TABLE (fst (read_worker env g queue'))) - set (GPS_TABLE g))"
    using read_worker_rows [of env g queue'] by auto
  ultimately show ?thesis using r by simp
qed

text \<open>
  Of two photos with latitude 35 and longitude 139, the one dated 1970-01-01 00:00:00 is
  left out and the other one is appended.
\<close>

theorem read_worker_skips_epoch_witness:
  "truthy (Num 35) \<and> truthy (Num 139) \<and>
   fst (read_photo_gps (demo_env [(''e.jpg'', photo_epoch), (''t.jpg'', photo_tokyo)] []) ''e.jpg'') =
     Some (Fin 0, Num 35, Num 139, Num 10) \<and>
   GPS_TABLE (fst (read_worker (demo_env [(''e.jpg'', photo_epoch), (''t.jpg'', photo_tokyo)] [])
                     initial [''e.jpg'', ''t.jpg''])) =
     [(Fin 1700000000, Num 35, Num 139, Num 10)]"
proof -
  let ?e = "demo_env [(''e.jpg'', photo_epoch), (''t.jpg'', photo_tokyo)] []"
  have h1: "get_metadata ?e ''e.jpg'' = Inr (map_of photo_epoch # [])"
    by (simp add: demo_env_def)
  have h2: "map_of photo_epoch ''EXIF:DateTimeOriginal'' = Some (Str ''1970:01:01 00:00:00'')"
    by (simp add: photo_epoch_def)
  have h3: "strptime_timestamp ?e (Str ''1970:01:01 00:00:00'') = Inr 0"
    by (simp add: demo_env_def demo_clock_def)
  have mg: "meta_get (map_of photo_epoch) ''EXIF:GPSLatitude'' = Num 35"
    "meta_get (map_of photo_epoch) ''EXIF:GPSLongitude'' = Num 139"
    "meta_get (map_of photo_epoch) ''EXIF:GPSAltitude'' = Num 10"
    by (simp_all add: meta_get_def photo_epoch_def)
  have t: "read_worker ?e initial [''t.jpg''] =
      (\<lparr>GPS_TABLE = [(Fin 1700000000, Num 35, Num 139, Num 10)], OVERWRITE = False\<rparr>,
       [GetMetadata ''t.jpg'', Print (ReadOk ''t.jpg'' (Fin 1700000000) (Num 35) (Num 139)),
        TaskDone])"
    by (simp add: read_photo_gps_def demo_env_def photo_tokyo_def demo_clock_def meta_get_def
          Let_def read_append_def float_truthy_def initial_def)
  from read_worker_skips_epoch [OF h1 h2 h3, of initial "[''t.jpg'']"] mg t
  show ?thesis by (simp del: read_worker.simps)
qed


subsection \<open>The overwrite flag\<close>

text \<open>
  Only \<^verbatim>\<open>write_photo_gps\<close> calls \<^verbatim>\<open>set_tags\<close>, and it takes the parameters from the module's
  \<^verbatim>\<open>OVERWRITE\<close>, which nothing assigns.
\<close>

lemma set_tags_params_append:
  "set_tags_params (a @ b) = set_tags_params a @ set_tags_params b"
  by (induction a rule: set_tags_params.induct) simp_all

lemma set_tags_params_mem:
  "ps \<in> set (set_tags_params ev) \<longleftrightarrow> (\<exists>p t. SetTags p t ps \<in> set ev)"
  by (induction ev rule: set_tags_params.induct) auto

lemma set_tags_params_prints:
  "\<forall>e\<in>set ev. \<not> is_set_tags e \<Longrightarrow> set_tags_params ev = []"
  by (induction ev rule: set_tags_params.induct) auto

lemma params_read: "set_tags_params (snd (read_photo_gps env p)) = []"
  using read_photo_gps_events [of _ env p] by (intro set_tags_params_prints) blast

lemma params_write_photo_gps:
  "set (set_tags_params (snd (write_photo_gps env g p))) \<subseteq> {tool_params g}"
  using wpg_set_tags [of _ _ _ env g p] by (auto simp: set_tags_params_mem)

lemma params_write_worker:
  "set (set_tags_params (snd (write_worker env g queue))) \<subseteq> {tool_params g}"
proof (induction queue)
  case Nil
  then show ?case by simp
next
  case (Cons p queue)
  obtain r ev where w: "write_photo_gps env g p = (r, ev)" by (cases "write_photo_gps env g p")
  with params_write_photo_gps [of env g p]
  have ev: "set (set_tags_params ev) \<subseteq> {tool_params g}" by simp
  show ?case
  proof (cases r)
    case (Inl e)
    with w ev show ?thesis by (simp add: set_tags_params_append)
  next
    case (Inr u)
    obtain r' ev' where w': "write_worker env g queue = (r', ev')"
      by (cases "write_worker env g queue")
    with Cons.IH have "set (set_tags_params ev') \<subseteq> {tool_params g}" by simp
    with w w' ev Inr show ?thesis by (simp add: set_tags_params_append)
  qed
qed

lemma params_write_workers:
  "set (set_tags_params (snd (write_workers env g n queue))) \<subseteq> {tool_params g}"
proof (induction n arbitrary: queue)
  case 0
  then show ?case by simp
next
  case (Suc n)
  obtain r left ev where w: "write_worker env g queue = ((r, left), ev)"
    by (cases "write_worker env g queue") auto
  obtain left' ev' where w': "write_workers env g n left = (left', ev')"
    by (cases "write_workers env g n left")
  from params_write_worker [of env g queue] w
  have "set (set_tags_params ev) \<subseteq> {tool_params g}" by simp
  moreover from Suc.IH [of left] w' have "set (set_tags_params ev') \<subseteq> {tool_params g}" by simp
  ultimately show ?case using w w' by (simp add: set_tags_params_append)
qed

lemma params_load_rows: "set_tags_params (snd (load_rows env t rows)) = []"
proof (induction rows arbitrary: t)
  case Nil
  then show ?case by simp
next
  case (Cons row rows)
  show ?case
  proof (cases "load_row env row")
    case (Inl e)
    obtain t' ev where l: "load_rows env t rows = (t', ev)" by (cases "load_rows env t rows")
    with Cons.IH [of t] have "set_tags_params ev = []" by simp
    with Inl l show ?thesis by simp
  next
    case (Inr r)
    with Cons.IH [of "t @ [r]"] show ?thesis by simp
  qed
qed

lemma load_gps_csv_frame:
  assumes "load_gps_csv env g path = ((x, g1), ev)"
  shows "OVERWRITE g1 = OVERWRITE g \<and> set_tags_params ev = []"
proof (cases "csv_reader env path")
  case (Inl e)
  with assms show ?thesis by (auto simp: load_gps_csv_def)
next
  case (Inr y)
  obtain rows raised where y: "y = (rows, raised)" by (cases y)
  obtain t ev' where l: "load_rows env (GPS_TABLE g) rows = (t, ev')"
    by (cases "load_rows env (GPS_TABLE g) rows")
  with params_load_rows [of env "GPS_TABLE g" rows] have "set_tags_params ev' = []" by simp
  with assms Inr y l show ?thesis by (auto simp: load_gps_csv_def split: option.splits)
qed

lemma params_process_file: "set_tags_params (snd (process_file queue p)) = []"
  by (simp add: process_file_def)

lemma params_process_files: "set_tags_params (snd (process_files queue files)) = []"
proof (induction files arbitrary: queue)
  case Nil
  then show ?case by simp
next
  case (Cons f files)
  obtain q ev where p: "process_file queue f = (q, ev)" by (cases "process_file queue f")
  obtain q' ev' where p': "process_files q files = (q', ev')" by (cases "process_files q files")
  from params_process_file [of queue f] p have "set_tags_params ev = []" by simp
  moreover from Cons.IH [of q] p' have "set_tags_params ev' = []" by simp
  ultimately show ?case using p p' by (simp add: set_tags_params_append)
qed

lemma params_loop_file: "set_tags_params (snd (loop_file env queue p)) = []"
  by (simp add: loop_file_def params_process_file params_process_files)

lemma params_read_worker: "set_tags_params (snd (read_worker env g queue)) = []"
proof (induction queue arbitrary: g)
  case Nil
  then show ?case by simp
next
  case (Cons p queue)
  obtain r ev where r: "read_photo_gps env p = (r, ev)" by (cases "read_photo_gps env p")
  from params_read [of env p] r have "set_tags_params ev = []" by simp
  with read_worker_single [OF r, of g queue] Cons.IH [of "read_append g r"]
  show ?case by (simp add: set_tags_params_append)
qed

lemma params_read_workers: "set_tags_params (snd (read_workers env g n queue)) = []"
proof (induction n arbitrary: g queue)
  case 0
  then show ?case by simp
next
  case (Suc n)
  obtain g' ev where r: "read_worker env g queue = (g', ev)" by (cases "read_worker env g queue")
  obtain x ev' where r': "read_workers env g' n [] = (x, ev')" by (cases "read_workers env g' n []")
  from params_read_worker [of env g queue] r have "set_tags_params ev = []" by simp
  moreover from Suc.IH [of g' "[]"] r' have "set_tags_params ev' = []" by simp
  ultimately show ?case using r r' by (simp add: set_tags_params_append)
qed

lemma params_write_rows: "set_tags_params (write_rows env path t) = []"
  by (induction t) (auto split: option.splits)

lemma params_write_gps_csv: "set_tags_params (snd (write_gps_csv env g path)) = []"
  by (simp add: write_gps_csv_def Let_def params_write_rows split: option.splits)

lemma main_params:
  "OVERWRITE g = False \<Longrightarrow>
   set (set_tags_params (snd (main env g arg1 arg2 overwrite threads))) \<subseteq> {[''-P'', []]}"
proof -
  assume g: "OVERWRITE g = False"
  show ?thesis
  proof (cases "suffix ''.csv'' (lower arg1)")
    case True
    obtain r g1 ev0 where l: "load_gps_csv env g arg1 = ((r, g1), ev0)"
      by (cases "load_gps_csv env g arg1") auto
    from load_gps_csv_frame [OF l] g
    have g1: "OVERWRITE g1 = False" "set_tags_params ev0 = []" by simp_all
    show ?thesis
    proof (cases r)
      case (Some e)
      with l g1 True show ?thesis by (simp add: main_def)
    next
      case None
      obtain queue ev1 where q: "loop_file env [] arg2 = (queue, ev1)"
        by (cases "loop_file env [] arg2")
      obtain left ev2 where w: "write_workers env g1 (nat threads) queue = (left, ev2)"
        by (cases "write_workers env g1 (nat threads) queue")
      from params_loop_file [of env "[]" arg2] q have e1: "set_tags_params ev1 = []" by simp
      from params_write_workers [of env g1 "nat threads" queue] w g1(1)
      have "set (set_tags_params ev2) \<subseteq> {[''-P'', []]}" by (simp add: tool_params_def)
      with True l None q w g1 e1 show ?thesis
        by (simp add: main_def set_tags_params_append)
    qed
  next
    case False
    show ?thesis
    proof (cases "suffix ''.csv'' (lower arg2)")
      case True
      obtain queue ev1 where q: "loop_file env [] arg1 = (queue, ev1)"
        by (cases "loop_file env [] arg1")
      obtain g1 left ev2 where r: "read_workers env g (nat threads) queue = ((g1, left), ev2)"
        by (cases "read_workers env g (nat threads) queue") auto
      obtain x g2 ev3 where w: "write_gps_csv env g1 arg2 = ((x, g2), ev3)"
        by (cases "write_gps_csv env g1 arg2") auto
      from params_loop_file [of env "[]" arg1] q have "set_tags_params ev1 = []" by simp
      moreover from params_read_workers [of env g "nat threads" queue] r
      have "set_tags_params ev2 = []" by simp
      moreover from params_write_gps_csv [of env g1 arg2] w have "set_tags_params ev3 = []" by simp
      ultimately show ?thesis using False True q r w
        by (simp add: main_def set_tags_params_append split: option.splits)
    next
      case no: False
      with False show ?thesis by (simp add: main_def)
    qed
  qed
qed

text \<open>
  C1 fails on the code. The property proved: in every run of \<^verbatim>\<open>main\<close> from the module's
  initial globals, whatever the arguments and whatever the value of the \<^verbatim>\<open>--overwrite\<close>
  flag, every call of \<^verbatim>\<open>set_tags\<close> passes the parameters \<^verbatim>\<open>-P\<close> and the empty string:
  \<^verbatim>\<open>-overwrite_original\<close> is never passed, so the metadata tool keeps its backup copy
  also when \<^verbatim>\<open>--overwrite\<close> was given.
\<close>

theorem main_overwrite_never_passed:
  "set (set_tags_params (snd (main env initial arg1 arg2 overwrite threads))) \<subseteq> {[''-P'', []]}"
  by (rule main_params) (simp add: initial_def)


lemma wpg_accepted_result:
  "read_photo_gps env p = (Some (ts, elat, elon, ealt), ev1) \<Longrightarrow> \<not> (truthy elat \<and> truthy elon) \<Longrightarrow>
   fst (get_closest_gps_row env g ts) = (d, Some (timestamp, lat, lon, alt)) \<Longrightarrow>
   fromtimestamp env timestamp = Inr dt \<Longrightarrow>
   rg_search env lat lon = Inr (res # others) \<Longrightarrow>
   \<not> py_gt d (Fin 3600) \<Longrightarrow>
   float_of env lat = Inr flat \<Longrightarrow> float_of env lon = Inr flon \<Longrightarrow>
   set_tags env p (gps_tags lat lon alt flat flon) (tool_params g) = None \<Longrightarrow>
   write_photo_gps env g p =
     (Inr (),
      ev1 @ [Search lat lon, Print (Matched p dt lat lon),
             Print (Address p (cc res @ '', '' @ name res @ '', '' @ admin1 res @ '', '' @ cc res)),
             SetTags p (gps_tags lat lon alt flat flon) (tool_params g), Print (Done p)])"
  by (simp add: write_photo_gps_def gps_to_address_ok Let_def)

text \<open>An inject run with \<^verbatim>\<open>--overwrite\<close> that writes one photo, without \<^verbatim>\<open>-overwrite_original\<close>.\<close>

theorem main_overwrite_never_passed_witness:
  "set_tags_params
     (snd (main (demo_env [(''photos/a.jpg'', photo_900)]
                   [(''gps.csv'', [[''1700000000'', ''35.0'', ''139.0'', ''10'']])])
             initial ''gps.csv'' ''photos/a.jpg'' True 4)) = [[''-P'', []]]"
proof -
  let ?e = "demo_env [(''photos/a.jpg'', photo_900)]
              [(''gps.csv'', [[''1700000000'', ''35.0'', ''139.0'', ''10'']])]"
  let ?g = "\<lparr>GPS_TABLE = [row_a], OVERWRITE = False\<rparr>"
  let ?res = "\<lparr>cc = ''JP'', name = ''Tokyo'', admin1 = ''Tokyo''\<rparr>"
  let ?ev = "[GetMetadata ''photos/a.jpg'',
              Print (ReadOk ''photos/a.jpg'' (Fin 1700000900) (Str []) (Str []))] @
             [Search (Str ''35.0'') (Str ''139.0''),
              Print (Matched ''photos/a.jpg'' ''datetime'' (Str ''35.0'') (Str ''139.0'')),
              Print (Address ''photos/a.jpg''
                (cc ?res @ '', '' @ name ?res @ '', '' @ admin1 ?res @ '', '' @ cc ?res)),
              SetTags ''photos/a.jpg''
                (gps_tags (Str ''35.0'') (Str ''139.0'') (Str ''10'') (Fin 35) (Fin 139))
                (tool_params ?g),
              Print (Done ''photos/a.jpg'')]"
  have l: "load_gps_csv ?e initial ''gps.csv'' = ((None, ?g), [])"
    by (simp add: load_gps_csv_def load_row_def demo_env_def initial_def float_literal_examples
          py_set_def set_insert_def row_a_def)
  have q: "loop_file ?e [] ''photos/a.jpg'' = ([''photos/a.jpg''], [])"
    by (simp add: loop_file_def process_file_def demo_env_def EXT_def lower_def lower_char_def
          suffix_to_prefix sublist_code)
  have r: "read_photo_gps ?e ''photos/a.jpg'' =
      (Some (Fin 1700000900, Str [], Str [], Str []),
       [GetMetadata ''photos/a.jpg'',
        Print (ReadOk ''photos/a.jpg'' (Fin 1700000900) (Str []) (Str []))])"
    by (simp add: read_photo_gps_def demo_env_def photo_900_def demo_clock_def meta_get_def Let_def)
  have n: "fst (get_closest_gps_row ?e ?g (Fin 1700000900)) =
      (Fin 900, Some (Fin 1700000000, Str ''35.0'', Str ''139.0'', Str ''10''))"
    by (simp add: get_closest_gps_row_def demo_env_def row_a_def)
  have wp: "write_photo_gps ?e ?g ''photos/a.jpg'' = (Inr (), ?ev)"
    by (rule wpg_accepted_result [OF r _ n, where others = "[]"])
       (simp_all add: demo_env_def py_gt_def float_literal_examples)
  have n4: "(4::nat) = Suc (Suc (Suc (Suc 0)))" by simp
  have ww: "write_workers ?e ?g 4 [''photos/a.jpg''] = ([], ?ev @ [TaskDone])"
    unfolding n4 write_workers.simps write_worker.simps wp by simp
  have sfx: "suffix ''.csv'' (lower ''gps.csv'')"
    by (simp add: lower_def lower_char_def suffix_to_prefix)
  have "snd (main ?e initial ''gps.csv'' ''photos/a.jpg'' True 4) = ?ev @ [TaskDone]"
    by (simp add: main_def Let_def sfx l q ww del: write_workers.simps write_worker.simps)
  then show ?thesis
    using main_overwrite_never_passed [of ?e "''gps.csv''" "''photos/a.jpg''" True 4]
    by (simp add: tool_params_def)
qed

subsection \<open>Exceptions in the write worker\<close>

text \<open>
  Each path a worker takes from the queue is followed by exactly one \<^verbatim>\<open>task_done\<close>, also
  when the worker ends with an exception.
\<close>

lemma read_no_task_done: "TaskDone \<notin> set (snd (read_photo_gps env p))"
  by (auto simp: read_photo_gps_def Let_def split: sum.splits list.splits option.splits)

lemma wpg_no_task_done: "TaskDone \<notin> set (snd (write_photo_gps env g p))"
proof -
  obtain r ev1 where r: "read_photo_gps env p = (r, ev1)" by (cases "read_photo_gps env p")
  with read_no_task_done [of env p] have ev1: "TaskDone \<notin> set ev1" by simp
  show ?thesis
  proof (cases r)
    case None
    with r ev1 show ?thesis by (simp add: write_photo_gps_def)
  next
    case (Some row)
    obtain d c where c: "fst (get_closest_gps_row env g (fst row)) = (d, c)"
      by (cases "fst (get_closest_gps_row env g (fst row))")
    show ?thesis
    proof (cases c)
      case None
      with r ev1 Some c show ?thesis by (simp add: write_photo_gps_def)
    next
      case some: (Some s)
      obtain ts lat lon alt where s: "s = (ts, lat, lon, alt)" by (cases s)
      obtain a where a: "gps_to_address env lat lon = (a, [Search lat lon])"
        using gps_to_address_events [of env lat lon] by (cases "gps_to_address env lat lon") simp
      from r ev1 Some c some s a show ?thesis
        by (auto simp: write_photo_gps_def Let_def split: sum.splits option.splits)
    qed
  qed
qed

lemma count_task_done_wpg: "count_list (snd (write_photo_gps env g p)) TaskDone = 0"
  using wpg_no_task_done [of env g p] by (simp add: count_list_0_iff)

lemma write_worker_task_done:
  "count_list (snd (write_worker env g queue)) TaskDone + length (snd (fst (write_worker env g queue))) =
   length queue"
proof (induction queue)
  case Nil
  then show ?case by simp
next
  case (Cons p queue)
  obtain r ev where w: "write_photo_gps env g p = (r, ev)" by (cases "write_photo_gps env g p")
  with count_task_done_wpg [of env g p] have ev: "count_list ev TaskDone = 0" by simp
  show ?case
  proof (cases r)
    case (Inl e)
    with w ev show ?thesis by simp
  next
    case (Inr u)
    obtain r' ev' where w': "write_worker env g queue = (r', ev')"
      by (cases "write_worker env g queue")
    with Cons.IH w ev Inr show ?thesis by simp
  qed
qed

text \<open>
  C5 fails on the code. The property proved: when \<^verbatim>\<open>write_photo_gps\<close> raises for the path
  at the head of the queue, \<^verbatim>\<open>task_done\<close> is called once and the exception leaves the
  worker: the worker ends with the exception, uncaught, and the paths behind it stay in
  the queue.
\<close>

theorem write_worker_exception_escapes:
  assumes "write_photo_gps env g p = (Inl e, ev)"
  shows "write_worker env g (p # queue) = ((Some e, queue), ev @ [TaskDone, Uncaught e]) \<and>
         count_list (snd (write_worker env g (p # queue))) TaskDone = 1"
  using assms count_task_done_wpg [of env g p] by simp

text \<open>
  A table row with an empty latitude cell, two photos 900 seconds from it: the worker
  dies with ValueError at the first photo and leaves the second in the queue; with one
  thread, \<^verbatim>\<open>main\<close> then waits for the queue forever.
\<close>

theorem write_worker_exception_escapes_witness:
  "write_worker (demo_env [(''photos/a.jpg'', photo_900), (''photos/b.jpg'', photo_900)]
                   [(''gps.csv'', [[''1700000000'', [], ''139.0'', ''10'']])])
     \<lparr>GPS_TABLE = [row_nolat], OVERWRITE = False\<rparr> [''photos/a.jpg'', ''photos/b.jpg''] =
     ((Some ValueError, [''photos/b.jpg'']),
      [GetMetadata ''photos/a.jpg'',
       Print (ReadOk ''photos/a.jpg'' (Fin 1700000900) (Str []) (Str [])),
       Search (Str []) (Str ''139.0''),
       Print (Matched ''photos/a.jpg'' ''datetime'' (Str []) (Str ''139.0'')),
       Print (Address ''photos/a.jpg'' ''JP, Tokyo, Tokyo, JP''),
       TaskDone, Uncaught ValueError]) \<and>
   fst (fst (main (demo_env [(''photos/a.jpg'', photo_900), (''photos/b.jpg'', photo_900)]
                     [(''gps.csv'', [[''1700000000'', [], ''139.0'', ''10'']])])
               initial ''gps.csv'' ''photos'' False 1)) = Blocked"
proof -
  let ?e = "demo_env [(''photos/a.jpg'', photo_900), (''photos/b.jpg'', photo_900)]
              [(''gps.csv'', [[''1700000000'', [], ''139.0'', ''10'']])]"
  let ?g = "\<lparr>GPS_TABLE = [row_nolat], OVERWRITE = False\<rparr>"
  let ?res = "\<lparr>cc = ''JP'', name = ''Tokyo'', admin1 = ''Tokyo''\<rparr>"
  let ?ev = "[GetMetadata ''photos/a.jpg'',
              Print (ReadOk ''photos/a.jpg'' (Fin 1700000900) (Str []) (Str []))] @
             [Search (Str []) (Str ''139.0''),
              Print (Matched ''photos/a.jpg'' ''datetime'' (Str []) (Str ''139.0'')),
              Print (Address ''photos/a.jpg''
                (cc ?res @ '', '' @ name ?res @ '', '' @ admin1 ?res @ '', '' @ cc ?res))]"
  have l: "load_gps_csv ?e initial ''gps.csv'' = ((None, ?g), [])"
    by (simp add: load_gps_csv_def load_row_def demo_env_def initial_def float_literal_examples
          py_set_def set_insert_def row_nolat_def)
  have q: "loop_file ?e [] ''photos'' = ([''photos/a.jpg'', ''photos/b.jpg''], [])"
    by (simp add: loop_file_def process_file_def demo_env_def EXT_def lower_def lower_char_def
          suffix_to_prefix sublist_code)
  have r: "read_photo_gps ?e ''photos/a.jpg'' =
      (Some (Fin 1700000900, Str [], Str [], Str []),
       [GetMetadata ''photos/a.jpg'',
        Print (ReadOk ''photos/a.jpg'' (Fin 1700000900) (Str []) (Str []))])"
    by (simp add: read_photo_gps_def demo_env_def photo_900_def demo_clock_def meta_get_def Let_def)
  have n: "fst (get_closest_gps_row ?e ?g (Fin 1700000900)) =
      (Fin 900, Some (Fin 1700000000, Str [], Str ''139.0'', Str ''10''))"
    by (simp add: get_closest_gps_row_def demo_env_def row_nolat_def)
  have wp: "write_photo_gps ?e ?g ''photos/a.jpg'' = (Inl ValueError, ?ev)"
    by (rule wpg_float_lat_fails [OF r _ n, where others = "[]"])
       (simp_all add: demo_env_def py_gt_def float_literal_examples)
  have ww: "write_worker ?e ?g [''photos/a.jpg'', ''photos/b.jpg''] =
      ((Some ValueError, [''photos/b.jpg'']), ?ev @ [TaskDone, Uncaught ValueError])"
    using write_worker_exception_escapes [OF wp, of "[''photos/b.jpg'']"] by blast
  have n1: "nat 1 = Suc 0" by simp
  have w1: "write_workers ?e ?g (nat 1) [''photos/a.jpg'', ''photos/b.jpg''] =
      ([''photos/b.jpg''], ?ev @ [TaskDone, Uncaught ValueError])"
    unfolding n1 write_workers.simps ww by simp
  have sfx: "suffix ''.csv'' (lower ''gps.csv'')"
    by (simp add: lower_def lower_char_def suffix_to_prefix)
  have m: "fst (fst (main ?e initial ''gps.csv'' ''photos'' False 1)) = Blocked"
    unfolding main_def Let_def l q by (simp only: sfx if_True prod.case sum.case w1) simp
  from ww m show ?thesis by simp
qed

end
